theory Spec2Isabelle
  imports Complex_Main
begin

section \<open>Solidity 0.8 arithmetic on uint256\<close>

text \<open>
  The contracts are compiled with \<open>pragma solidity ^0.8.24\<close>: every \<open>+\<close>, \<open>-\<close> and \<open>*\<close>
  on \<open>uint256\<close> outside an \<open>unchecked\<close> block aborts the call with \<open>Panic\<close> when the exact
  result leaves the range \<open>0 .. 2^256 - 1\<close>. Values are natural numbers here; each operation
  carries its range check. A failed \<open>require\<close> is \<open>Revert\<close> with the message of the source;
  \<open>ExternalFailure\<close> is a revert raised inside a contract outside this repository (the
  Uniswap router, factory and pair) or a failed contract creation, whose message is not known.
  Division is only ever by the non-zero constants \<open>DECIMALS\<close>, \<open>K\<close>, \<open>BPS_DENOMINATOR\<close> and
  \<open>i * DECIMALS\<close> with \<open>1 \<le> i\<close>, and truncates.
\<close>

datatype error = Revert string | Panic | ExternalFailure

definition UINT_LIMIT :: nat where
  "UINT_LIMIT = 2 ^ 256"

definition checked_add :: "nat \<Rightarrow> nat \<Rightarrow> error + nat" where
  "checked_add a b = (if a + b < UINT_LIMIT then Inr (a + b) else Inl Panic)"

definition checked_sub :: "nat \<Rightarrow> nat \<Rightarrow> error + nat" where
  "checked_sub a b = (if b \<le> a then Inr (a - b) else Inl Panic)"

definition checked_mul :: "nat \<Rightarrow> nat \<Rightarrow> error + nat" where
  "checked_mul a b = (if a * b < UINT_LIMIT then Inr (a * b) else Inl Panic)"

text \<open>Sequencing of fallible steps: the first failure aborts the rest.\<close>

definition rbind :: "error + 'a \<Rightarrow> ('a \<Rightarrow> error + 'b) \<Rightarrow> error + 'b" where
  "rbind m f = (case m of Inl e \<Rightarrow> Inl e | Inr v \<Rightarrow> f v)"

definition require :: "bool \<Rightarrow> string \<Rightarrow> error + unit" where
  "require c msg = (if c then Inr () else Inl (Revert msg))"

section \<open>Constants of TokenFactory\<close>

definition ether :: nat where
  "ether = 10 ^ 18"

definition MEMETOKEN_CREATION_FEE :: nat where
  "MEMETOKEN_CREATION_FEE = 1000000000000"

definition FEE_BPS :: nat where
  "FEE_BPS = 100"

definition BPS_DENOMINATOR :: nat where
  "BPS_DENOMINATOR = 10000"

definition DECIMALS :: nat where
  "DECIMALS = 10 ^ 18"

definition MAX_SUPPLY :: nat where
  "MAX_SUPPLY = 1000000 * DECIMALS"

definition INIT_SUPPLY :: nat where
  "INIT_SUPPLY = (MAX_SUPPLY * 20) div 100"

definition INITIAL_PRICE :: nat where
  "INITIAL_PRICE = 11400755737022590"

definition K :: nat where
  "K = 4900862993591"

definition MEMECOIN_FUNDING_GOAL :: nat where
  "MEMECOIN_FUNDING_GOAL = 115000 * ether"

definition NOT_ENTERED :: nat where
  "NOT_ENTERED = 1"

definition ENTERED :: nat where
  "ENTERED = 2"

section \<open>Bonding curve math\<close>

text \<open>
  \<open>exp\<close> of the source (named \<open>exp_q18\<close>, since \<open>exp\<close> is the real exponential of HOL).
  \<open>exp_loop i x tm sm\<close> is the \<open>for\<close> loop from counter \<open>i\<close> on, with the local variables
  \<open>term\<close> and \<open>sum\<close> of the source as \<open>tm\<close> and \<open>sm\<close>. The counter stays at most 21, so
  \<open>uint256(i) * DECIMALS\<close> and \<open>i++\<close> cannot overflow.
\<close>

function exp_loop :: "nat \<Rightarrow> nat \<Rightarrow> nat \<Rightarrow> nat \<Rightarrow> error + nat" where
  "exp_loop i x tm sm =
     (if i \<le> 20 then
        (case checked_mul tm x of
           Inl e \<Rightarrow> Inl e
         | Inr p \<Rightarrow>
             (let tm' = p div (i * DECIMALS) in
              case checked_add sm tm' of
                Inl e \<Rightarrow> Inl e
              | Inr sm' \<Rightarrow> if tm' < 1 then Inr sm' else exp_loop (i + 1) x tm' sm'))
      else Inr sm)"
  by pat_completeness auto
termination
  by (relation "measure (\<lambda>(i, x, tm, sm). 21 - i)") auto

definition exp_q18 :: "nat \<Rightarrow> error + nat" where
  "exp_q18 x = exp_loop 1 x DECIMALS DECIMALS"

definition calculateCost :: "nat \<Rightarrow> nat \<Rightarrow> error + nat" where
  "calculateCost currentRaw amountRaw =
     rbind (checked_add currentRaw amountRaw) (\<lambda>s1.
     rbind (checked_mul K s1) (\<lambda>k1.
     let exponent1 = k1 div DECIMALS in
     rbind (checked_mul K currentRaw) (\<lambda>k0.
     let exponent0 = k0 div DECIMALS in
     rbind (exp_q18 exponent1) (\<lambda>exp1.
     rbind (exp_q18 exponent0) (\<lambda>exp0.
     rbind (checked_sub exp1 exp0) (\<lambda>d.
     rbind (checked_mul INITIAL_PRICE d) (\<lambda>n.
     Inr (n div K))))))))"

definition calculateRefund :: "nat \<Rightarrow> nat \<Rightarrow> error + nat" where
  "calculateRefund currentRaw amountRaw =
     rbind (checked_mul K currentRaw) (\<lambda>k1.
     let exponent1 = k1 div DECIMALS in
     rbind (checked_sub currentRaw amountRaw) (\<lambda>s0.
     rbind (checked_mul K s0) (\<lambda>k0.
     let exponent0 = k0 div DECIMALS in
     rbind (exp_q18 exponent1) (\<lambda>exp1.
     rbind (exp_q18 exponent0) (\<lambda>exp0.
     rbind (checked_sub exp1 exp0) (\<lambda>d.
     rbind (checked_mul INITIAL_PRICE d) (\<lambda>n.
     Inr (n div K))))))))"

text \<open>
  The \<open>while\<close> loop of \<open>calculateTokenAmountFromEth\<close>. The cost of the midpoint is obtained
  by \<open>staticcall\<close>: when \<open>calculateCost\<close> aborts, \<open>ok\<close> is false and control falls through
  to \<open>high = mid - 1\<close>.
\<close>

function bsearch :: "nat \<Rightarrow> nat \<Rightarrow> nat \<Rightarrow> nat \<Rightarrow> error + nat" where
  "bsearch currentRaw effectiveEth low high =
     (if low < high then
        (if \<not> low + high + 1 < UINT_LIMIT then Inl Panic
         else
           (let mid = (low + high + 1) div 2 in
            if \<not> mid * DECIMALS < UINT_LIMIT then Inl Panic
            else
              (let amountRaw = mid * DECIMALS in
               case calculateCost currentRaw amountRaw of
                 Inr cost \<Rightarrow>
                   if cost \<le> effectiveEth then bsearch currentRaw effectiveEth mid high
                   else bsearch currentRaw effectiveEth low (mid - 1)
               | Inl e \<Rightarrow> bsearch currentRaw effectiveEth low (mid - 1))))
      else Inr low)"
  by pat_completeness auto
termination
  by (relation "measure (\<lambda>(c, e, low, high). high - low)") auto

section \<open>The Token contract\<close>

text \<open>
  An address is a number; \<open>0\<close> is \<open>address(0)\<close>. The fields of the contract \<open>Token\<close> keep
  their names (\<open>_balances\<close> and \<open>_allowances\<close> without the underscore, \<open>name\<close> and \<open>symbol\<close>
  prefixed). The caller of an external function is its first argument after the contract
  state. The events of \<open>Token\<close> are not part of the model.
\<close>

type_synonym address = nat

record Token =
  token_name :: string
  token_symbol :: string
  maxSupply :: nat
  totalSupply :: nat
  balances :: "address \<Rightarrow> nat"
  allowances :: "address \<Rightarrow> address \<Rightarrow> nat"
  factory :: address
  factoryLocked :: bool

definition balanceOf :: "Token \<Rightarrow> address \<Rightarrow> nat" where
  "balanceOf t account = balances t account"

definition int_transfer :: "Token \<Rightarrow> address \<Rightarrow> address \<Rightarrow> nat \<Rightarrow> error + Token" where
  "int_transfer t from to amount =
     rbind (require (from \<noteq> 0) ''ERC20: transfer from zero'') (\<lambda>_.
     rbind (require (to \<noteq> 0) ''ERC20: transfer to zero'') (\<lambda>_.
     let fromBal = balances t from in
     rbind (require (fromBal \<ge> amount) ''ERC20: transfer > balance'') (\<lambda>_.
     let t1 = t\<lparr>balances := (balances t)(from := fromBal - amount)\<rparr> in
     rbind (checked_add (balances t1 to) amount) (\<lambda>b.
     Inr (t1\<lparr>balances := (balances t1)(to := b)\<rparr>)))))"

definition int_mint :: "Token \<Rightarrow> address \<Rightarrow> nat \<Rightarrow> error + Token" where
  "int_mint t to amount =
     rbind (require (to \<noteq> 0) ''ERC20: mint to zero'') (\<lambda>_.
     rbind (checked_add (totalSupply t) amount) (\<lambda>n.
     rbind (require (n \<le> maxSupply t) ''max supply exceeded'') (\<lambda>_.
     rbind (checked_add (totalSupply t) amount) (\<lambda>ts.
     rbind (checked_add (balances t to) amount) (\<lambda>b.
     Inr (t\<lparr>totalSupply := ts, balances := (balances t)(to := b)\<rparr>))))))"

definition int_burn :: "Token \<Rightarrow> address \<Rightarrow> nat \<Rightarrow> error + Token" where
  "int_burn t from amount =
     rbind (require (from \<noteq> 0) ''ERC20: burn from zero'') (\<lambda>_.
     let fromBal = balances t from in
     rbind (require (fromBal \<ge> amount) ''ERC20: burn > balance'') (\<lambda>_.
     let t1 = t\<lparr>balances := (balances t)(from := fromBal - amount)\<rparr> in
     rbind (checked_sub (totalSupply t1) amount) (\<lambda>ts.
     Inr (t1\<lparr>totalSupply := ts\<rparr>))))"

definition int_approve :: "Token \<Rightarrow> address \<Rightarrow> address \<Rightarrow> nat \<Rightarrow> error + Token" where
  "int_approve t ownr spender amount =
     rbind (require (ownr \<noteq> 0) ''ERC20: approve from zero'') (\<lambda>_.
     rbind (require (spender \<noteq> 0) ''ERC20: approve to zero'') (\<lambda>_.
     Inr (t\<lparr>allowances := (allowances t)(ownr := (allowances t ownr)(spender := amount))\<rparr>)))"

definition Token_constructor ::
  "address \<Rightarrow> string \<Rightarrow> string \<Rightarrow> nat \<Rightarrow> nat \<Rightarrow> error + Token" where
  "Token_constructor caller nm symb maxSup initialLpSupply =
     rbind (require (maxSup > 0) ''maxSupply zero'') (\<lambda>_.
     rbind (require (initialLpSupply \<le> maxSup) ''init > max'') (\<lambda>_.
     int_mint \<lparr>token_name = nm, token_symbol = symb, maxSupply = maxSup, totalSupply = 0,
                balances = (\<lambda>_. 0), allowances = (\<lambda>_ _. 0), factory = 0,
                factoryLocked = False\<rparr> caller initialLpSupply))"

definition transfer :: "Token \<Rightarrow> address \<Rightarrow> address \<Rightarrow> nat \<Rightarrow> error + Token" where
  "transfer t caller to amount = int_transfer t caller to amount"

definition approve :: "Token \<Rightarrow> address \<Rightarrow> address \<Rightarrow> nat \<Rightarrow> error + Token" where
  "approve t caller spender amount = int_approve t caller spender amount"

definition transferFrom ::
  "Token \<Rightarrow> address \<Rightarrow> address \<Rightarrow> address \<Rightarrow> nat \<Rightarrow> error + Token" where
  "transferFrom t caller from to amount =
     (let currentAllowance = allowances t from caller in
      rbind (require (currentAllowance \<ge> amount) ''ERC20: insufficient allowance'') (\<lambda>_.
      rbind (int_approve t from caller (currentAllowance - amount)) (\<lambda>t1.
      int_transfer t1 from to amount)))"

definition setFactory :: "Token \<Rightarrow> address \<Rightarrow> error + Token" where
  "setFactory t fct =
     rbind (require (\<not> factoryLocked t) ''Factory already set'') (\<lambda>_.
     rbind (require (fct \<noteq> 0) ''Zero factory'') (\<lambda>_.
     Inr (t\<lparr>factory := fct, factoryLocked := True\<rparr>)))"

definition mint :: "Token \<Rightarrow> address \<Rightarrow> nat \<Rightarrow> address \<Rightarrow> error + Token" where
  "mint t caller amount to =
     rbind (require (caller = factory t) ''Not factory'') (\<lambda>_. int_mint t to amount)"

definition burn :: "Token \<Rightarrow> address \<Rightarrow> nat \<Rightarrow> address \<Rightarrow> error + Token" where
  "burn t caller amount from =
     rbind (require (caller = factory t) ''Not factory'') (\<lambda>_. int_burn t from amount)"

section \<open>The TokenFactory contract\<close>

text \<open>
  The state is the storage of \<open>TokenFactory\<close> (\<open>_status\<close> as \<open>status\<close>), its own address and
  native balance (\<open>address(this)\<close>, \<open>address(this).balance\<close>), and the \<open>Token\<close> contracts
  deployed so far, by address. A Solidity mapping is a total function: an absent key reads
  as the zero value. A call that the factory makes to an account outside this repository
  (the refund and the payout to \<open>msg.sender\<close>, the withdrawal, the Uniswap contracts) is
  represented by its outcome, given as an argument; while it runs, \<open>status\<close> is \<open>ENTERED\<close>,
  so every \<open>nonReentrant\<close> entry point rejects a call back into the factory.
\<close>

record MemeToken =
  name :: string
  symbol :: string
  description :: string
  tokenImageUrl :: string
  fundingRaised :: nat
  tokenAddress :: address
  creatorAddress :: address
  isLaunched :: bool

record TokenFactory =
  owner :: address
  uniswapFactory :: address
  uniswapRouter :: address
  memeTokenAddresses :: "address list"
  addressToMemeToken :: "address \<Rightarrow> MemeToken"
  curveSupply :: "address \<Rightarrow> nat"
  listingFee :: nat
  protocolFeeBalance :: nat
  status :: nat
  this_address :: address
  this_balance :: nat
  tokens :: "address \<Rightarrow> Token option"

text \<open>What a call leaves behind besides the new state: events and native-currency transfers.\<close>

datatype event =
    MemeTokenCreated address address nat
  | TokenBought address address nat nat nat
  | TokenSold address address nat nat nat
  | TokenLaunched address nat nat nat
  | ListingFeeUpdated nat

datatype effect = Emit event | Send address nat

text \<open>\<open>msg.sender\<close>, \<open>msg.value\<close> and \<open>block.timestamp\<close> of a call.\<close>

record msg =
  msg_sender :: address
  msg_value :: nat
  block_timestamp :: nat

text \<open>
  The outcome of the calls that \<open>_launchOnUniswap\<close> makes into the Uniswap contracts, which
  are not part of this repository: whether \<open>router.WETH()\<close>, \<open>factory.getPair\<close> and
  \<open>factory.createPair\<close> return (\<open>pool_ok\<close>) and which pair; whether \<open>addLiquidityETH\<close>
  returns (\<open>add_ok\<close>) and how much liquidity; whether the final \<open>pair.transfer\<close> returns
  (\<open>lock_ok\<close>). A router that returns has pulled \<open>INIT_SUPPLY\<close> tokens from the factory to
  the pair by \<open>transferFrom\<close> (both minimum amounts equal the desired ones) and kept the
  native currency sent along.
\<close>

record launch_env =
  pool_ok :: bool
  pair :: address
  add_ok :: bool
  liquidity :: nat
  lock_ok :: bool

definition nonReentrant ::
  "TokenFactory \<Rightarrow> (TokenFactory \<Rightarrow> error + (TokenFactory \<times> 'r \<times> effect list))
     \<Rightarrow> error + (TokenFactory \<times> 'r \<times> effect list)" where
  "nonReentrant s body =
     rbind (require (status s \<noteq> ENTERED) ''ReentrancyGuard: reentrant call'') (\<lambda>_.
     rbind (body (s\<lparr>status := ENTERED\<rparr>)) (\<lambda>(s', r, fx).
     Inr (s'\<lparr>status := NOT_ENTERED\<rparr>, r, fx)))"

definition onlyOwner :: "TokenFactory \<Rightarrow> msg \<Rightarrow> error + unit" where
  "onlyOwner s m = require (msg_sender m = owner s) ''Not owner''"

text \<open>A call from the factory into the token contract at address \<open>a\<close>.\<close>

definition with_token ::
  "TokenFactory \<Rightarrow> address \<Rightarrow> (Token \<Rightarrow> error + Token) \<Rightarrow> error + TokenFactory" where
  "with_token s a f =
     (case tokens s a of
        None \<Rightarrow> Inl ExternalFailure
      | Some t \<Rightarrow> rbind (f t) (\<lambda>t'. Inr (s\<lparr>tokens := (tokens s)(a \<mapsto> t')\<rparr>)))"

text \<open>
  \<open>recipient.call{value: amount}("")\<close>: \<open>accepts\<close> says whether the recipient takes the
  payment; a contract cannot send more than it holds. The result is the \<open>success\<close> flag and
  the state after the call.
\<close>

definition send_value :: "TokenFactory \<Rightarrow> nat \<Rightarrow> bool \<Rightarrow> bool \<times> TokenFactory" where
  "send_value s amount accepts =
     (if accepts \<and> amount \<le> this_balance s
      then (True, s\<lparr>this_balance := this_balance s - amount\<rparr>)
      else (False, s))"

definition TokenFactory_constructor ::
  "address \<Rightarrow> address \<Rightarrow> address \<Rightarrow> address \<Rightarrow> nat \<Rightarrow> error + TokenFactory" where
  "TokenFactory_constructor deployer self fct router fee =
     rbind (require (fct \<noteq> 0) ''zero factory'') (\<lambda>_.
     rbind (require (router \<noteq> 0) ''zero router'') (\<lambda>_.
     Inr \<lparr>owner = deployer, uniswapFactory = fct, uniswapRouter = router,
          memeTokenAddresses = [],
          addressToMemeToken = (\<lambda>_. \<lparr>name = [], symbol = [], description = [],
             tokenImageUrl = [], fundingRaised = 0, tokenAddress = 0, creatorAddress = 0,
             isLaunched = False\<rparr>),
          curveSupply = (\<lambda>_. 0), listingFee = fee, protocolFeeBalance = 0,
          status = NOT_ENTERED, this_address = self, this_balance = 0,
          tokens = (\<lambda>_. None)\<rparr>))"

definition setListingFee ::
  "TokenFactory \<Rightarrow> msg \<Rightarrow> nat \<Rightarrow> error + (TokenFactory \<times> unit \<times> effect list)" where
  "setListingFee s m fee =
     rbind (onlyOwner s m) (\<lambda>_.
     Inr (s\<lparr>listingFee := fee\<rparr>, (), [Emit (ListingFeeUpdated fee)]))"

text \<open>
  \<open>new Token(...)\<close> deploys at an address \<open>tokenAddr\<close> fixed by the chain. A creation at an
  address that already holds a contract fails, and the zero address is never a contract.
\<close>

definition createMemeToken ::
  "TokenFactory \<Rightarrow> msg \<Rightarrow> string \<Rightarrow> string \<Rightarrow> string \<Rightarrow> string \<Rightarrow> address
     \<Rightarrow> error + (TokenFactory \<times> address \<times> effect list)" where
  "createMemeToken s0 m nm symb imageUrl descr tokenAddr =
     nonReentrant s0 (\<lambda>s1.
     let s = s1\<lparr>this_balance := this_balance s1 + msg_value m\<rparr> in
     rbind (require (msg_value m \<ge> MEMETOKEN_CREATION_FEE) ''Creation fee required'') (\<lambda>_.
     rbind (checked_add (protocolFeeBalance s) (msg_value m)) (\<lambda>pfb.
     let s2 = s\<lparr>protocolFeeBalance := pfb\<rparr> in
     if tokenAddr = 0 \<or> tokenAddr = this_address s2 \<or> tokens s2 tokenAddr \<noteq> None
     then Inl ExternalFailure
     else
       rbind (Token_constructor (this_address s2) nm symb MAX_SUPPLY INIT_SUPPLY) (\<lambda>t.
       rbind (setFactory t (this_address s2)) (\<lambda>t'.
       let s3 = s2\<lparr>tokens := (tokens s2)(tokenAddr \<mapsto> t')\<rparr> in
       let s4 = s3\<lparr>memeTokenAddresses := memeTokenAddresses s3 @ [tokenAddr],
                   addressToMemeToken := (addressToMemeToken s3)(tokenAddr :=
                     \<lparr>name = nm, symbol = symb, description = descr, tokenImageUrl = imageUrl,
                      fundingRaised = 0, tokenAddress = tokenAddr,
                      creatorAddress = msg_sender m, isLaunched = False\<rparr>)\<rparr> in
       Inr (s4, tokenAddr,
            [Emit (MemeTokenCreated tokenAddr (msg_sender m) (block_timestamp m))]))))))"

definition getAllMemeTokens :: "TokenFactory \<Rightarrow> MemeToken list" where
  "getAllMemeTokens s = map (addressToMemeToken s) (memeTokenAddresses s)"


text \<open>
  \<open>_launchOnUniswap\<close>. The calls into the router, the Uniswap factory and the pair are
  resolved by the \<open>launch_env\<close>; the calls into the token (\<open>balanceOf\<close>, \<open>approve\<close>, and the
  router's \<open>transferFrom\<close>) run the token's code.
\<close>

definition launchOnUniswap ::
  "TokenFactory \<Rightarrow> address \<Rightarrow> nat \<Rightarrow> launch_env \<Rightarrow> error + TokenFactory" where
  "launchOnUniswap s tokenAddr ethAmount env =
     rbind (require (ethAmount > 0) ''No SEI for LP'') (\<lambda>_.
     if \<not> pool_ok env then Inl ExternalFailure
     else
       (case tokens s tokenAddr of
          None \<Rightarrow> Inl ExternalFailure
        | Some t \<Rightarrow>
            rbind (require (balanceOf t (this_address s) \<ge> INIT_SUPPLY)
                     ''Insufficient LP tokens'') (\<lambda>_.
            rbind (with_token s tokenAddr
                     (\<lambda>t. approve t (this_address s) (uniswapRouter s) INIT_SUPPLY)) (\<lambda>s1.
            if \<not> (add_ok env \<and> ethAmount \<le> this_balance s1) then Inl ExternalFailure
            else
              rbind (with_token (s1\<lparr>this_balance := this_balance s1 - ethAmount\<rparr>) tokenAddr
                       (\<lambda>t. transferFrom t (uniswapRouter s) (this_address s) (pair env)
                              INIT_SUPPLY)) (\<lambda>s2.
              rbind (require (liquidity env > 0) ''No liquidity minted'') (\<lambda>_.
              if \<not> lock_ok env then Inl ExternalFailure else Inr s2))))))"

text \<open>
  The graduation block at the end of \<open>buyMemeToken\<close> (the \<open>if\<close> on the graduation
  conditions and its body), with \<open>mt\<close> read from storage again as the storage reference
  of the source does.
\<close>

definition graduation ::
  "TokenFactory \<Rightarrow> msg \<Rightarrow> address \<Rightarrow> nat \<Rightarrow> launch_env
     \<Rightarrow> error + (TokenFactory \<times> effect list)" where
  "graduation s m tokenAddr maxCurveRaw env =
     (let mt = addressToMemeToken s tokenAddr in
      if \<not> isLaunched mt \<and>
         (fundingRaised mt \<ge> MEMECOIN_FUNDING_GOAL \<or> curveSupply s tokenAddr \<ge> maxCurveRaw)
      then
        (let lpEth0 = fundingRaised mt;
             takes = (listingFee s > 0 \<and> lpEth0 > listingFee s) in
         rbind (if takes then checked_sub lpEth0 (listingFee s) else Inr lpEth0) (\<lambda>lpEth.
         rbind (if takes then checked_add (protocolFeeBalance s) (listingFee s)
                else Inr (protocolFeeBalance s)) (\<lambda>pfb.
         let takenListingFee = (if takes then listingFee s else 0);
             s1 = s\<lparr>protocolFeeBalance := pfb,
                    addressToMemeToken := (addressToMemeToken s)(tokenAddr :=
                      mt\<lparr>isLaunched := True, fundingRaised := 0\<rparr>)\<rparr> in
         rbind (launchOnUniswap s1 tokenAddr lpEth env) (\<lambda>s2.
         Inr (s2, [Emit (TokenLaunched tokenAddr lpEth takenListingFee
                          (block_timestamp m))])))))
      else Inr (s, []))"

text \<open>
  The refund of the excess payment in \<open>buyMemeToken\<close> (the \<open>if (msg.value > totalRequired)\<close>
  block).
\<close>

definition refund_excess ::
  "TokenFactory \<Rightarrow> msg \<Rightarrow> nat \<Rightarrow> bool \<Rightarrow> error + (TokenFactory \<times> effect list)" where
  "refund_excess s m totalRequired refund_accepted =
     (if msg_value m > totalRequired then
        (let excess = msg_value m - totalRequired;
             (success, s') = send_value s excess refund_accepted in
         rbind (require success ''Refund failed'') (\<lambda>_.
         Inr (s', [Send (msg_sender m) excess])))
      else Inr (s, []))"

text \<open>
  \<open>buyMemeToken\<close>. \<open>refund_accepted\<close> says whether \<open>msg.sender\<close> takes the refund of the
  excess payment; \<open>env\<close> resolves the Uniswap calls of a graduation. The payment is in the
  contract's balance from the start of the call. The result is the new state, the returned
  \<open>uint256\<close> and the effects in the order of the source.
\<close>

definition buyMemeToken ::
  "TokenFactory \<Rightarrow> msg \<Rightarrow> address \<Rightarrow> nat \<Rightarrow> bool \<Rightarrow> launch_env
     \<Rightarrow> error + (TokenFactory \<times> nat \<times> effect list)" where
  "buyMemeToken s0 m tokenAddr tokenQty refund_accepted env =
     nonReentrant s0 (\<lambda>s1.
     let s = s1\<lparr>this_balance := this_balance s1 + msg_value m\<rparr>;
         mt = addressToMemeToken s tokenAddr in
     rbind (require (tokenAddress mt = tokenAddr \<and> tokenAddr \<noteq> 0) ''Unknown token'') (\<lambda>_.
     rbind (require (\<not> isLaunched mt) ''Launched: use Uniswap'') (\<lambda>_.
     let currentRaw = curveSupply s tokenAddr in
     rbind (checked_sub MAX_SUPPLY INIT_SUPPLY) (\<lambda>maxCurveRaw.
     rbind (checked_sub maxCurveRaw currentRaw) (\<lambda>availableRaw.
     rbind (require (availableRaw > 0) ''Curve complete'') (\<lambda>_.
     rbind (checked_mul tokenQty DECIMALS) (\<lambda>requestedRaw.
     let buyRaw = (if requestedRaw > availableRaw then availableRaw else requestedRaw) in
     rbind (require (buyRaw > 0) ''Nothing to buy'') (\<lambda>_.
     rbind (calculateCost currentRaw buyRaw) (\<lambda>curveCost.
     rbind (checked_mul curveCost FEE_BPS) (\<lambda>f.
     let fee = f div BPS_DENOMINATOR in
     rbind (checked_add curveCost fee) (\<lambda>totalRequired.
     rbind (require (msg_value m \<ge> totalRequired) ''Insufficient SEI sent'') (\<lambda>_.
     rbind (checked_add (protocolFeeBalance s) fee) (\<lambda>pfb.
     rbind (checked_add (fundingRaised mt) curveCost) (\<lambda>fr.
     rbind (checked_add currentRaw buyRaw) (\<lambda>cs.
     let s2 = s\<lparr>protocolFeeBalance := pfb,
                 addressToMemeToken := (addressToMemeToken s)(tokenAddr :=
                   mt\<lparr>fundingRaised := fr\<rparr>),
                 curveSupply := (curveSupply s)(tokenAddr := cs)\<rparr>;
         actualTokenQty = buyRaw div DECIMALS in
     rbind (with_token s2 tokenAddr
              (\<lambda>t. mint t (this_address s2) buyRaw (msg_sender m))) (\<lambda>s3.
     let bought = Emit (TokenBought tokenAddr (msg_sender m) actualTokenQty totalRequired
                          (block_timestamp m)) in
     rbind (refund_excess s3 m totalRequired refund_accepted) (\<lambda>(s4, fx).
     rbind (graduation s4 m tokenAddr maxCurveRaw env) (\<lambda>(s5, fx').
     Inr (s5, totalRequired, bought # fx @ fx')))))))))))))))))))"

text \<open>
  \<open>sellMemeToken\<close>. \<open>payout_accepted\<close> says whether \<open>msg.sender\<close> takes the payout.
\<close>

definition sellMemeToken ::
  "TokenFactory \<Rightarrow> msg \<Rightarrow> address \<Rightarrow> nat \<Rightarrow> bool
     \<Rightarrow> error + (TokenFactory \<times> nat \<times> effect list)" where
  "sellMemeToken s0 m tokenAddr tokenQty payout_accepted =
     nonReentrant s0 (\<lambda>s.
     let mt = addressToMemeToken s tokenAddr in
     rbind (require (tokenAddress mt = tokenAddr \<and> tokenAddr \<noteq> 0) ''Unknown token'') (\<lambda>_.
     rbind (require (\<not> isLaunched mt) ''Launched: use Uniswap'') (\<lambda>_.
     rbind (checked_mul tokenQty DECIMALS) (\<lambda>qtyRaw.
     let currentRaw = curveSupply s tokenAddr in
     (case tokens s tokenAddr of
        None \<Rightarrow> Inl ExternalFailure
      | Some t \<Rightarrow>
     rbind (require (balanceOf t (msg_sender m) \<ge> qtyRaw) ''Insufficient balance'') (\<lambda>_.
     rbind (require (currentRaw \<ge> qtyRaw) ''Curve supply too low'') (\<lambda>_.
     rbind (calculateRefund currentRaw qtyRaw) (\<lambda>refund.
     rbind (require (fundingRaised mt \<ge> refund) ''Insufficient curve SEI'') (\<lambda>_.
     rbind (checked_mul refund FEE_BPS) (\<lambda>f.
     let fee = f div BPS_DENOMINATOR in
     rbind (checked_sub refund fee) (\<lambda>netRefund.
     rbind (checked_add (protocolFeeBalance s) fee) (\<lambda>pfb.
     rbind (checked_sub (fundingRaised mt) refund) (\<lambda>fr.
     rbind (checked_sub currentRaw qtyRaw) (\<lambda>cs.
     let s2 = s\<lparr>protocolFeeBalance := pfb,
                 addressToMemeToken := (addressToMemeToken s)(tokenAddr :=
                   mt\<lparr>fundingRaised := fr\<rparr>),
                 curveSupply := (curveSupply s)(tokenAddr := cs)\<rparr> in
     rbind (with_token s2 tokenAddr
              (\<lambda>t. burn t (this_address s2) qtyRaw (msg_sender m))) (\<lambda>s3.
     let (success, s4) = send_value s3 netRefund payout_accepted in
     rbind (require success ''SEI transfer failed'') (\<lambda>_.
     Inr (s4, netRefund,
          [Send (msg_sender m) netRefund,
           Emit (TokenSold tokenAddr (msg_sender m) tokenQty netRefund
                   (block_timestamp m))])))))))))))))))))"

definition withdrawProtocolFees ::
  "TokenFactory \<Rightarrow> msg \<Rightarrow> address \<Rightarrow> bool \<Rightarrow> error + (TokenFactory \<times> unit \<times> effect list)" where
  "withdrawProtocolFees s0 m to accepted =
     rbind (onlyOwner s0 m) (\<lambda>_.
     nonReentrant s0 (\<lambda>s.
     rbind (require (to \<noteq> 0) ''zero'') (\<lambda>_.
     let amount = protocolFeeBalance s in
     rbind (require (amount > 0) ''no fees'') (\<lambda>_.
     let s1 = s\<lparr>protocolFeeBalance := 0\<rparr>;
         (success, s2) = send_value s1 amount accepted in
     rbind (require success ''SEI transfer failed'') (\<lambda>_.
     Inr (s2, (), [Send to amount]))))))"

definition withdrawFees ::
  "TokenFactory \<Rightarrow> msg \<Rightarrow> address \<Rightarrow> bool \<Rightarrow> error + (TokenFactory \<times> unit \<times> effect list)" where
  "withdrawFees s0 m to accepted =
     rbind (onlyOwner s0 m) (\<lambda>_.
     nonReentrant s0 (\<lambda>s.
     rbind (require (to \<noteq> 0) ''zero'') (\<lambda>_.
     let bal = this_balance s in
     rbind (require (bal > 0) ''no balance'') (\<lambda>_.
     let (success, s1) = send_value s bal accepted in
     rbind (require success ''SEI transfer failed'') (\<lambda>_.
     Inr (s1, (), [Send to bal]))))))"

section \<open>Transactions\<close>

text \<open>
  The state-changing entry points of the factory, and the token functions that any account
  can call with effect on a deployed token (\<open>mint\<close> and \<open>burn\<close> revert for every caller but
  the factory, and \<open>setFactory\<close> reverts once \<open>createMemeToken\<close> has locked it). A
  transaction that aborts leaves the state as it was, the payment included.
\<close>

datatype call =
    CreateMemeToken string string string string address
  | BuyMemeToken address nat bool launch_env
  | SellMemeToken address nat bool
  | SetListingFee nat
  | WithdrawProtocolFees address bool
  | WithdrawFees address bool
  | TokenTransfer address address nat
  | TokenApprove address address nat
  | TokenTransferFrom address address address nat

fun exec :: "TokenFactory \<Rightarrow> msg \<Rightarrow> call \<Rightarrow> error + TokenFactory" where
  "exec s m (CreateMemeToken nm symb imageUrl descr tokenAddr) =
     rbind (createMemeToken s m nm symb imageUrl descr tokenAddr) (\<lambda>(s', _, _). Inr s')"
| "exec s m (BuyMemeToken tokenAddr tokenQty acc env) =
     rbind (buyMemeToken s m tokenAddr tokenQty acc env) (\<lambda>(s', _, _). Inr s')"
| "exec s m (SellMemeToken tokenAddr tokenQty acc) =
     rbind (sellMemeToken s m tokenAddr tokenQty acc) (\<lambda>(s', _, _). Inr s')"
| "exec s m (SetListingFee fee) =
     rbind (setListingFee s m fee) (\<lambda>(s', _, _). Inr s')"
| "exec s m (WithdrawProtocolFees to acc) =
     rbind (withdrawProtocolFees s m to acc) (\<lambda>(s', _, _). Inr s')"
| "exec s m (WithdrawFees to acc) =
     rbind (withdrawFees s m to acc) (\<lambda>(s', _, _). Inr s')"
| "exec s m (TokenTransfer tok to amount) =
     with_token s tok (\<lambda>t. transfer t (msg_sender m) to amount)"
| "exec s m (TokenApprove tok spender amount) =
     with_token s tok (\<lambda>t. approve t (msg_sender m) spender amount)"
| "exec s m (TokenTransferFrom tok from to amount) =
     with_token s tok (\<lambda>t. transferFrom t (msg_sender m) from to amount)"

definition step :: "TokenFactory \<Rightarrow> msg \<times> call \<Rightarrow> TokenFactory" where
  "step s mc = (case exec s (fst mc) (snd mc) of Inl e \<Rightarrow> s | Inr s' \<Rightarrow> s')"

definition run :: "TokenFactory \<Rightarrow> (msg \<times> call) list \<Rightarrow> TokenFactory" where
  "run s cs = foldl step s cs"

section \<open>The exponential as the specification words it\<close>

text \<open>
  The series as the specification describes it, on unbounded naturals: the terms
  \<open>t\<^sub>0 = 10^18\<close> and \<open>t\<^sub>i = (t\<^sub>i\<^sub>-\<^sub>1 * x) div (i * 10^18)\<close>, the number of iterations (the first
  \<open>i\<close> from 1 to 20 whose term is zero, or 20), and the sum of the terms up to there.
  \<open>exp_fits x\<close> says that no product and no sum of the computation leaves uint256.
\<close>

primrec maclaurin_term :: "nat \<Rightarrow> nat \<Rightarrow> nat" where
  "maclaurin_term x 0 = DECIMALS"
| "maclaurin_term x (Suc i) = (maclaurin_term x i * x) div (Suc i * DECIMALS)"

definition maclaurin_sum :: "nat \<Rightarrow> nat \<Rightarrow> nat" where
  "maclaurin_sum x n = sum_list (map (maclaurin_term x) [0..<Suc n])"

definition maclaurin_stop :: "nat \<Rightarrow> nat" where
  "maclaurin_stop x =
     (case find (\<lambda>i. maclaurin_term x i = 0) [1..<21] of None \<Rightarrow> 20 | Some i \<Rightarrow> i)"

definition exp_spec :: "nat \<Rightarrow> nat" where
  "exp_spec x = maclaurin_sum x (maclaurin_stop x)"

definition exp_fits :: "nat \<Rightarrow> bool" where
  "exp_fits x \<longleftrightarrow>
     (\<forall>j<20. maclaurin_term x j * x < UINT_LIMIT) \<and> maclaurin_sum x 20 < UINT_LIMIT"


text \<open>
  The exponent \<open>K * raw / DECIMALS\<close> that \<open>calculateCost\<close> and \<open>calculateRefund\<close> pass to
  \<open>exp\<close>, and the curve cap \<open>MAX_SUPPLY - INIT_SUPPLY\<close> of \<open>buyMemeToken\<close>.
\<close>

definition exponent_of :: "nat \<Rightarrow> nat" where
  "exponent_of raw = (K * raw) div DECIMALS"

definition MAX_CURVE :: nat where
  "MAX_CURVE = MAX_SUPPLY - INIT_SUPPLY"

section \<open>Notions used in the statements\<close>

text \<open>
  \<open>fill_raw\<close> is the quantity a buy fills, \<open>min(requested, available)\<close> in raw units;
  \<open>trading_fee\<close> is the 1% fee on a gross amount; \<open>sent\<close> lists the native-currency
  transfers among the effects of a call. \<open>launched_asset\<close> is a launched asset of the
  factory with its token contract. \<open>reachable\<close> are the states that a sequence of
  transactions produces from the state left by the constructor, and \<open>invariant\<close> is what
  holds in all of them: no call is in flight, no curve supply exceeds the cap, and a launched
  entry belongs to an asset of the factory.
\<close>

definition fill_raw :: "TokenFactory \<Rightarrow> address \<Rightarrow> nat \<Rightarrow> nat" where
  "fill_raw s a q = min (q * DECIMALS) (MAX_CURVE - curveSupply s a)"

definition trading_fee :: "nat \<Rightarrow> nat" where
  "trading_fee gross = (gross * FEE_BPS) div BPS_DENOMINATOR"



definition reachable :: "TokenFactory \<Rightarrow> bool" where
  "reachable s \<longleftrightarrow>
     (\<exists>deployer self fct router fee s0 cs.
        TokenFactory_constructor deployer self fct router fee = Inr s0 \<and> s = run s0 cs)"

fun sent :: "effect list \<Rightarrow> (address \<times> nat) list" where
  "sent [] = []"
| "sent (Send to v # fx) = (to, v) # sent fx"
| "sent (Emit e # fx) = sent fx"



definition ideal_term :: "real \<Rightarrow> nat \<Rightarrow> real" where
  "ideal_term y i = real DECIMALS * (y / real DECIMALS) ^ i / fact i"

definition curve_value :: "nat \<Rightarrow> nat" where
  "curve_value j = exp_spec (K * j)"

section \<open>Example transactions\<close>

text \<open>
  A deployment (owner 1, factory at address 1000, listing fee 1 SEI), the accounts 11
  (\<open>alice\<close>) and 12 (\<open>bob\<close>), and one token at address 5000. \<open>ex_state fees bal raised sold\<close>
  is the factory with that token not launched, \<open>sold\<close> raw units on the curve (all held by
  account 11), \<open>raised\<close> in its funding reserve, \<open>fees\<close> in the protocol fee balance and
  \<open>bal\<close> as native balance. \<open>ex_s1\<close> is the state after the creation, \<open>ex_s2\<close> and \<open>ex_s3\<close>
  after account 11 bought 1 and then 2 tokens, \<open>ex_t1\<close> after account 11 bought 799999
  tokens in \<open>ex_s1\<close>, and \<open>ex_t2\<close> after account 12 then asked for 10 tokens.
\<close>

definition alice :: "nat \<Rightarrow> msg" where
  "alice v = \<lparr>msg_sender = 11, msg_value = v, block_timestamp = 1700000000\<rparr>"

definition bob :: "nat \<Rightarrow> msg" where
  "bob v = \<lparr>msg_sender = 12, msg_value = v, block_timestamp = 1700000600\<rparr>"

definition ex_env :: launch_env where
  "ex_env = \<lparr>pool_ok = True, pair = 6000, add_ok = True, liquidity = 10 ^ 21, lock_ok = True\<rparr>"

definition zero_asset :: MemeToken where
  "zero_asset = \<lparr>name = [], symbol = [], description = [], tokenImageUrl = [],
     fundingRaised = 0, tokenAddress = 0, creatorAddress = 0, isLaunched = False\<rparr>"

definition ex_s0 :: TokenFactory where
  "ex_s0 = \<lparr>owner = 1, uniswapFactory = 2000, uniswapRouter = 3000, memeTokenAddresses = [],
     addressToMemeToken = (\<lambda>_. zero_asset), curveSupply = (\<lambda>_. 0), listingFee = 10 ^ 18,
     protocolFeeBalance = 0, status = NOT_ENTERED, this_address = 1000, this_balance = 0,
     tokens = (\<lambda>_. None)\<rparr>"

definition ex_token :: "nat \<Rightarrow> Token" where
  "ex_token sold = \<lparr>token_name = ''Meme'', token_symbol = ''MEME'', maxSupply = MAX_SUPPLY,
     totalSupply = INIT_SUPPLY + sold,
     balances = (\<lambda>u. if u = 1000 then INIT_SUPPLY else if u = 11 then sold else 0),
     allowances = (\<lambda>_ _. 0), factory = 1000, factoryLocked = True\<rparr>"

definition ex_state :: "nat \<Rightarrow> nat \<Rightarrow> nat \<Rightarrow> nat \<Rightarrow> TokenFactory" where
  "ex_state fees bal raised sold =
     \<lparr>owner = 1, uniswapFactory = 2000, uniswapRouter = 3000, memeTokenAddresses = [5000],
      addressToMemeToken = (\<lambda>a. if a = 5000 then
         \<lparr>name = ''Meme'', symbol = ''MEME'', description = ''d'', tokenImageUrl = ''img'',
          fundingRaised = raised, tokenAddress = 5000, creatorAddress = 11, isLaunched = False\<rparr>
         else zero_asset),
      curveSupply = (\<lambda>a. if a = 5000 then sold else 0), listingFee = 10 ^ 18,
      protocolFeeBalance = fees, status = NOT_ENTERED, this_address = 1000, this_balance = bal,
      tokens = (\<lambda>a. if a = 5000 then Some (ex_token sold) else None)\<rparr>"

definition ex_s1 :: TokenFactory where
  "ex_s1 = ex_state 2000000000000 2000000000000 0 0"

definition ex_s2 :: TokenFactory where
  "ex_s2 = ex_state 116007836738376 11516791510576015 11400783673837639 (1 * DECIMALS)"

definition ex_s3 :: TokenFactory where
  "ex_s3 = ex_state 344025186432359 34546543829668377 34202518643236018 (3 * DECIMALS)"

definition ex_t1 :: TokenFactory where
  "ex_t1 = ex_state 1149994250417009605210 116149419092117970126232 114999424841700960521022
             (799999 * DECIMALS)"

definition ex_t2 :: TokenFactory where
  "ex_t2 = step ex_t1 (bob (10 ^ 18), BuyMemeToken 5000 10 True ex_env)"

section \<open>Basic facts\<close>

declare exp_loop.simps [simp del] bsearch.simps [simp del]

lemma rbind_Inr_iff: "rbind m f = Inr y \<longleftrightarrow> (\<exists>v. m = Inr v \<and> f v = Inr y)"
  by (cases m) (simp_all add: rbind_def)

lemma rbind_Inl_iff: "rbind m f = Inl e \<longleftrightarrow> m = Inl e \<or> (\<exists>v. m = Inr v \<and> f v = Inl e)"
  by (cases m) (simp_all add: rbind_def)

lemma rbind_Inr [simp]: "rbind (Inr v) f = f v"
  by (simp add: rbind_def)

lemma rbind_Inl [simp]: "rbind (Inl e) f = Inl e"
  by (simp add: rbind_def)

lemma require_True [simp]: "c \<Longrightarrow> require c msg = Inr ()"
  by (simp add: require_def)

lemma require_False [simp]: "\<not> c \<Longrightarrow> require c msg = Inl (Revert msg)"
  by (simp add: require_def)

lemma DECIMALS_pos [simp]: "0 < DECIMALS"
  by (simp add: DECIMALS_def)

lemma DECIMALS_lt_LIMIT: "DECIMALS < UINT_LIMIT"
  by (simp add: DECIMALS_def UINT_LIMIT_def)

lemma maclaurin_sum_0 [simp]: "maclaurin_sum x 0 = DECIMALS"
  by (simp add: maclaurin_sum_def)

lemma maclaurin_sum_Suc [simp]:
  "maclaurin_sum x (Suc n) = maclaurin_sum x n + maclaurin_term x (Suc n)"
  by (simp add: maclaurin_sum_def)

lemma maclaurin_term_zero_tail:
  "maclaurin_term x i = 0 \<Longrightarrow> i \<le> j \<Longrightarrow> maclaurin_term x j = 0"
  by (induction j) (auto simp: le_Suc_eq)

lemma maclaurin_sum_zero_tail:
  "maclaurin_term x (Suc i) = 0 \<Longrightarrow> i \<le> j \<Longrightarrow> maclaurin_sum x j = maclaurin_sum x i"
proof (induction j)
  case 0
  then show ?case by simp
next
  case (Suc j)
  show ?case
  proof (cases "i = Suc j")
    case True
    then show ?thesis by simp
  next
    case False
    with Suc.prems have le: "i \<le> j" by simp
    have "maclaurin_term x (Suc j) = 0"
      using maclaurin_term_zero_tail [OF Suc.prems(1), of "Suc j"] le by simp
    with Suc.IH [OF Suc.prems(1) le] show ?thesis by simp
  qed
qed

lemma maclaurin_sum_mono_n: "i \<le> j \<Longrightarrow> maclaurin_sum x i \<le> maclaurin_sum x j"
  by (induction j) (auto simp: le_Suc_eq)

lemma exp_loop_char:
  assumes "n \<le> 20" and "maclaurin_sum x n < UINT_LIMIT"
  shows "exp_loop (Suc n) x (maclaurin_term x n) (maclaurin_sum x n) =
           (if (\<forall>j<20. n \<le> j \<longrightarrow> maclaurin_term x j * x < UINT_LIMIT) \<and>
               maclaurin_sum x 20 < UINT_LIMIT
            then Inr (maclaurin_sum x 20) else Inl Panic)"
  using assms
proof (induction "20 - n" arbitrary: n)
  case 0
  then have n: "n = 20" by simp
  show ?case using 0 by (simp add: n exp_loop.simps)
next
  case (Suc k)
  then have n: "n < 20" by simp
  let ?t = "maclaurin_term x n" and ?t' = "maclaurin_term x (Suc n)"
  show ?case
  proof (cases "?t * x < UINT_LIMIT")
    case False
    then have "exp_loop (Suc n) x ?t (maclaurin_sum x n) = Inl Panic"
      using n by (subst exp_loop.simps) (simp add: checked_mul_def Let_def)
    moreover have "\<not> (\<forall>j<20. n \<le> j \<longrightarrow> maclaurin_term x j * x < UINT_LIMIT)"
      using False n by auto
    ultimately show ?thesis by simp
  next
    case mul: True
    show ?thesis
    proof (cases "maclaurin_sum x (Suc n) < UINT_LIMIT")
      case False
      then have "exp_loop (Suc n) x ?t (maclaurin_sum x n) = Inl Panic"
        using n mul by (subst exp_loop.simps) (simp add: checked_mul_def checked_add_def Let_def)
      moreover have "\<not> maclaurin_sum x 20 < UINT_LIMIT"
        using False maclaurin_sum_mono_n [of "Suc n" 20 x] n by simp
      ultimately show ?thesis by simp
    next
      case add: True
      show ?thesis
      proof (cases "?t' = 0")
        case True
        then have "exp_loop (Suc n) x ?t (maclaurin_sum x n) = Inr (maclaurin_sum x (Suc n))"
          using n mul add by (subst exp_loop.simps) (simp add: checked_mul_def checked_add_def Let_def)
        moreover have "maclaurin_sum x 20 = maclaurin_sum x n"
          using maclaurin_sum_zero_tail [OF True, of 20] n by simp
        moreover have "\<forall>j<20. n \<le> j \<longrightarrow> maclaurin_term x j * x < UINT_LIMIT"
        proof (intro allI impI)
          fix j assume "j < 20" "n \<le> j"
          show "maclaurin_term x j * x < UINT_LIMIT"
          proof (cases "j = n")
            case True then show ?thesis using mul by simp
          next
            case False
            with \<open>n \<le> j\<close> have "Suc n \<le> j" by simp
            then have "maclaurin_term x j = 0"
              using maclaurin_term_zero_tail [OF \<open>?t' = 0\<close>] by simp
            then show ?thesis by (simp add: UINT_LIMIT_def)
          qed
        qed
        ultimately show ?thesis using add True by simp
      next
        case False
        have "exp_loop (Suc n) x ?t (maclaurin_sum x n) =
                exp_loop (Suc (Suc n)) x ?t' (maclaurin_sum x (Suc n))"
          using n mul add False by (subst exp_loop.simps) (simp add: checked_mul_def checked_add_def Let_def)
        also have "\<dots> = (if (\<forall>j<20. Suc n \<le> j \<longrightarrow> maclaurin_term x j * x < UINT_LIMIT) \<and>
               maclaurin_sum x 20 < UINT_LIMIT
            then Inr (maclaurin_sum x 20) else Inl Panic)"
          using Suc.hyps(1) [of "Suc n"] Suc.hyps(2) n add by simp
        also have "(\<forall>j<20. Suc n \<le> j \<longrightarrow> maclaurin_term x j * x < UINT_LIMIT) \<longleftrightarrow>
                   (\<forall>j<20. n \<le> j \<longrightarrow> maclaurin_term x j * x < UINT_LIMIT)"
          using mul by (auto simp: le_Suc_eq Suc_le_eq intro: le_neq_implies_less)
        finally show ?thesis .
      qed
    qed
  qed
qed

lemma exp_q18_char: "exp_q18 x = (if exp_fits x then Inr (maclaurin_sum x 20) else Inl Panic)"
  using exp_loop_char [of 0 x] DECIMALS_lt_LIMIT
  by (simp add: exp_q18_def exp_fits_def)

section \<open>The exponential loop computes the truncated series\<close>

lemma exp_spec_eq_sum20: "exp_spec x = maclaurin_sum x 20"
proof (cases "find (\<lambda>i. maclaurin_term x i = 0) [1..<21]")
  case None
  then show ?thesis by (simp add: exp_spec_def maclaurin_stop_def)
next
  case (Some i)
  then have stop: "maclaurin_stop x = i" by (simp add: maclaurin_stop_def)
  from Some have z: "maclaurin_term x i = 0" and "i \<in> set [1..<21]"
    by (auto simp: find_Some_iff)
  then obtain i' where i: "i = Suc i'" and le: "i' \<le> 20"
    by (cases i) auto
  have "maclaurin_sum x 20 = maclaurin_sum x i'"
    using maclaurin_sum_zero_tail [of x i' 20] z i le by simp
  also have "\<dots> = maclaurin_sum x i" using z i by simp
  finally show ?thesis by (simp add: exp_spec_def stop)
qed

lemma exp_q18_spec: "exp_q18 x = (if exp_fits x then Inr (exp_spec x) else Inl Panic)"
  by (simp add: exp_q18_char exp_spec_eq_sum20)

lemma maclaurin_term_mono: "x \<le> y \<Longrightarrow> maclaurin_term x i \<le> maclaurin_term y i"
  by (induction i) (auto intro!: div_le_mono mult_le_mono)

lemma maclaurin_sum_mono: "x \<le> y \<Longrightarrow> maclaurin_sum x n \<le> maclaurin_sum y n"
  by (induction n) (auto intro!: add_mono maclaurin_term_mono simp del: maclaurin_term.simps)

lemma maclaurin_term_1 [simp]: "maclaurin_term x (Suc 0) = x"
  by simp

lemma maclaurin_sum_strict:
  assumes "x \<le> y"
  shows "maclaurin_sum x (Suc n) + (y - x) \<le> maclaurin_sum y (Suc n)"
proof (induction n)
  case 0
  then show ?case using assms by simp
next
  case (Suc n)
  have "maclaurin_term x (Suc (Suc n)) \<le> maclaurin_term y (Suc (Suc n))"
    by (rule maclaurin_term_mono [OF assms])
  with Suc show ?case
    by (simp del: maclaurin_term.simps)
qed

lemma exp_fits_mono:
  assumes "x \<le> y" and "exp_fits y"
  shows "exp_fits x"
  unfolding exp_fits_def
proof (intro conjI allI impI)
  fix j :: nat assume "j < 20"
  have "maclaurin_term x j * x \<le> maclaurin_term y j * y"
    by (intro mult_le_mono maclaurin_term_mono assms)
  also have "\<dots> < UINT_LIMIT" using assms(2) \<open>j < 20\<close> by (simp add: exp_fits_def)
  finally show "maclaurin_term x j * x < UINT_LIMIT" .
next
  have "maclaurin_sum x 20 \<le> maclaurin_sum y 20" by (rule maclaurin_sum_mono [OF assms(1)])
  also have "\<dots> < UINT_LIMIT" using assms(2) by (simp add: exp_fits_def)
  finally show "maclaurin_sum x 20 < UINT_LIMIT" .
qed

lemma exp_spec_mono: "x \<le> y \<Longrightarrow> exp_spec x \<le> exp_spec y"
  by (simp add: exp_spec_eq_sum20 maclaurin_sum_mono)

lemma exp_spec_strict: "x \<le> y \<Longrightarrow> exp_spec x + (y - x) \<le> exp_spec y"
proof -
  have "Suc 19 = 20" by simp
  with maclaurin_sum_strict [of x y 19] show "x \<le> y \<Longrightarrow> exp_spec x + (y - x) \<le> exp_spec y"
    by (simp only: exp_spec_eq_sum20)
qed


lemma exponent_of_mono: "a \<le> b \<Longrightarrow> exponent_of a \<le> exponent_of b"
  by (simp add: exponent_of_def div_le_mono)

lemma rbind_checked_add:
  "rbind (checked_add a b) f = (if a + b < UINT_LIMIT then f (a + b) else Inl Panic)"
  by (simp add: checked_add_def)

lemma rbind_checked_mul:
  "rbind (checked_mul a b) f = (if a * b < UINT_LIMIT then f (a * b) else Inl Panic)"
  by (simp add: checked_mul_def)

lemma rbind_checked_sub:
  "rbind (checked_sub a b) f = (if b \<le> a then f (a - b) else Inl Panic)"
  by (simp add: checked_sub_def)

lemma rbind_exp_q18:
  "rbind (exp_q18 x) f = (if exp_fits x then f (exp_spec x) else Inl Panic)"
  by (simp add: exp_q18_spec)

lemmas rbind_checked = rbind_checked_add rbind_checked_mul rbind_checked_sub rbind_exp_q18

lemma calculateCost_char:
  "calculateCost c a =
     (if c + a < UINT_LIMIT \<and> K * (c + a) < UINT_LIMIT \<and> exp_fits (exponent_of (c + a)) \<and>
         INITIAL_PRICE * (exp_spec (exponent_of (c + a)) - exp_spec (exponent_of c)) < UINT_LIMIT
      then Inr ((INITIAL_PRICE * (exp_spec (exponent_of (c + a)) - exp_spec (exponent_of c))) div K)
      else Inl Panic)"
proof -
  have e: "exponent_of c \<le> exponent_of (c + a)" by (simp add: exponent_of_mono)
  have k: "K * c \<le> K * (c + a)" by simp
  have 1: "K * (c + a) < UINT_LIMIT \<Longrightarrow> K * c < UINT_LIMIT" using k by linarith
  have 2: "exp_fits (exponent_of (c + a)) \<Longrightarrow> exp_fits (exponent_of c)"
    using exp_fits_mono [OF e] by simp
  have 3: "exp_spec (exponent_of c) \<le> exp_spec (exponent_of (c + a))"
    by (rule exp_spec_mono [OF e])
  have "calculateCost c a =
     (if c + a < UINT_LIMIT then
        if K * (c + a) < UINT_LIMIT then
          if K * c < UINT_LIMIT then
            if exp_fits (exponent_of (c + a)) then
              if exp_fits (exponent_of c) then
                if exp_spec (exponent_of c) \<le> exp_spec (exponent_of (c + a)) then
                  if INITIAL_PRICE * (exp_spec (exponent_of (c + a)) - exp_spec (exponent_of c)) < UINT_LIMIT
                  then Inr ((INITIAL_PRICE * (exp_spec (exponent_of (c + a)) - exp_spec (exponent_of c))) div K)
                  else Inl Panic
                else Inl Panic
              else Inl Panic
            else Inl Panic
          else Inl Panic
        else Inl Panic
      else Inl Panic)"
    by (simp only: calculateCost_def rbind_checked Let_def exponent_of_def)
  also have "\<dots> = (if c + a < UINT_LIMIT \<and> K * (c + a) < UINT_LIMIT \<and> exp_fits (exponent_of (c + a)) \<and>
         INITIAL_PRICE * (exp_spec (exponent_of (c + a)) - exp_spec (exponent_of c)) < UINT_LIMIT
      then Inr ((INITIAL_PRICE * (exp_spec (exponent_of (c + a)) - exp_spec (exponent_of c))) div K)
      else Inl Panic)"
    using 1 2 3 by simp
  finally show ?thesis .
qed

section \<open>Monotonicity and range of the cost\<close>

lemma calculateCost_Inr_iff:
  "calculateCost c a = Inr v \<longleftrightarrow>
     c + a < UINT_LIMIT \<and> K * (c + a) < UINT_LIMIT \<and> exp_fits (exponent_of (c + a)) \<and>
     INITIAL_PRICE * (exp_spec (exponent_of (c + a)) - exp_spec (exponent_of c)) < UINT_LIMIT \<and>
     v = (INITIAL_PRICE * (exp_spec (exponent_of (c + a)) - exp_spec (exponent_of c))) div K"
  by (auto simp: calculateCost_char)

lemma cost_mono_delta:
  assumes "a \<le> a'" and "calculateCost c a' = Inr v'"
  shows "\<exists>v. calculateCost c a = Inr v \<and> v \<le> v'"
proof -
  let ?d = "exp_spec (exponent_of (c + a)) - exp_spec (exponent_of c)"
  let ?d' = "exp_spec (exponent_of (c + a')) - exp_spec (exponent_of c)"
  from assms(2) have h: "c + a' < UINT_LIMIT" "K * (c + a') < UINT_LIMIT"
    "exp_fits (exponent_of (c + a'))" "INITIAL_PRICE * ?d' < UINT_LIMIT"
    "v' = (INITIAL_PRICE * ?d') div K"
    by (simp_all add: calculateCost_Inr_iff)
  have e: "exponent_of (c + a) \<le> exponent_of (c + a')"
    using assms(1) by (simp add: exponent_of_mono)
  have d: "?d \<le> ?d'" using exp_spec_mono [OF e] by simp
  have pd: "INITIAL_PRICE * ?d \<le> INITIAL_PRICE * ?d'" using d by simp
  have 1: "c + a < UINT_LIMIT" using assms(1) h(1) by simp
  have "K * (c + a) \<le> K * (c + a')" using assms(1) by simp
  then have 2: "K * (c + a) < UINT_LIMIT" using h(2) by linarith
  have 3: "exp_fits (exponent_of (c + a))" by (rule exp_fits_mono [OF e h(3)])
  have 4: "INITIAL_PRICE * ?d < UINT_LIMIT" using pd h(4) by linarith
  have "calculateCost c a = Inr ((INITIAL_PRICE * ?d) div K)"
    using 1 2 3 4 by (simp add: calculateCost_Inr_iff)
  moreover have "(INITIAL_PRICE * ?d) div K \<le> v'"
    unfolding h(5) by (rule div_le_mono [OF pd])
  ultimately show ?thesis by blast
qed

lemma K_le_INITIAL_PRICE: "K \<le> INITIAL_PRICE"
  by (simp add: K_def INITIAL_PRICE_def)

lemma K_pos [simp]: "0 < K"
  by (simp add: K_def)

lemma price_step: "d < d' \<Longrightarrow> (INITIAL_PRICE * d) div K < (INITIAL_PRICE * d') div K"
proof -
  assume "d < d'"
  then have "INITIAL_PRICE * d + K \<le> INITIAL_PRICE * d'"
    using K_le_INITIAL_PRICE
    by (metis Suc_leI add.commute le_trans mult_Suc_right mult_le_mono2 add_le_mono1)
  then have "(INITIAL_PRICE * d + K) div K \<le> (INITIAL_PRICE * d') div K"
    by (rule div_le_mono)
  then show ?thesis by simp
qed

lemma cost_strict_exponent:
  assumes "calculateCost c a = Inr v" and "calculateCost c a' = Inr v'"
    and "exponent_of (c + a) < exponent_of (c + a')"
  shows "v < v'"
proof -
  let ?d = "exp_spec (exponent_of (c + a)) - exp_spec (exponent_of c)"
  let ?d' = "exp_spec (exponent_of (c + a')) - exp_spec (exponent_of c)"
  have v: "v = (INITIAL_PRICE * ?d) div K" and v': "v' = (INITIAL_PRICE * ?d') div K"
    using assms(1,2) by (simp_all add: calculateCost_Inr_iff)
  have "exp_spec (exponent_of c) \<le> exp_spec (exponent_of (c + a))"
    by (simp add: exp_spec_mono exponent_of_mono)
  moreover have "exp_spec (exponent_of (c + a)) < exp_spec (exponent_of (c + a'))"
    using exp_spec_strict [of "exponent_of (c + a)" "exponent_of (c + a')"] assms(3) by simp
  ultimately have "?d < ?d'" by simp
  then show ?thesis unfolding v v' by (rule price_step)
qed

lemma exponent_of_step:
  assumes "DECIMALS \<le> K * b"
  shows "exponent_of a < exponent_of (a + b)"
proof -
  have "K * a + DECIMALS \<le> K * (a + b)" using assms by (simp add: distrib_left)
  then have "(K * a + DECIMALS) div DECIMALS \<le> (K * (a + b)) div DECIMALS"
    by (rule div_le_mono)
  then show ?thesis by (simp add: exponent_of_def)
qed

lemma cost_positive:
  assumes "calculateCost c a = Inr v" and "DECIMALS \<le> K * a"
  shows "INITIAL_PRICE div K \<le> v"
proof -
  let ?d = "exp_spec (exponent_of (c + a)) - exp_spec (exponent_of c)"
  have v: "v = (INITIAL_PRICE * ?d) div K"
    using assms(1) by (simp add: calculateCost_Inr_iff)
  have "exponent_of c < exponent_of (c + a)" by (rule exponent_of_step [OF assms(2)])
  then have "exp_spec (exponent_of c) < exp_spec (exponent_of (c + a))"
    using exp_spec_strict [of "exponent_of c" "exponent_of (c + a)"] by simp
  then have "1 \<le> ?d" by simp
  then have "INITIAL_PRICE * 1 \<le> INITIAL_PRICE * ?d" by (rule mult_le_mono2)
  then have "(INITIAL_PRICE * 1) div K \<le> (INITIAL_PRICE * ?d) div K" by (rule div_le_mono)
  then show ?thesis by (simp add: v)
qed

text \<open>No overflow on the curve's range.\<close>

lemma maclaurin_term_bound:
  assumes "x \<le> 4 * DECIMALS"
  shows "maclaurin_term x i \<le> 4 ^ i * DECIMALS"
proof (induction i)
  case 0
  then show ?case by simp
next
  case (Suc i)
  have "maclaurin_term x i * x \<le> (4 ^ i * DECIMALS) * (4 * DECIMALS)"
    by (rule mult_le_mono [OF Suc assms])
  then have "(maclaurin_term x i * x) div (Suc i * DECIMALS)
               \<le> ((4 ^ i * DECIMALS) * (4 * DECIMALS)) div (Suc i * DECIMALS)"
    by (rule div_le_mono)
  also have "\<dots> \<le> ((4 ^ i * DECIMALS) * (4 * DECIMALS)) div DECIMALS"
    by (rule div_le_mono2) simp_all
  also have "\<dots> = 4 ^ Suc i * DECIMALS" by simp
  finally show ?case by simp
qed

lemma maclaurin_sum_bound:
  assumes "x \<le> 4 * DECIMALS"
  shows "maclaurin_sum x n \<le> 4 ^ Suc n * DECIMALS"
proof (induction n)
  case 0
  then show ?case by simp
next
  case (Suc n)
  have "maclaurin_term x (Suc n) \<le> 4 ^ Suc n * DECIMALS"
    by (rule maclaurin_term_bound [OF assms])
  with Suc show ?case by (simp del: maclaurin_term.simps)
qed

lemma exp_fits_small:
  assumes "x \<le> 4 * DECIMALS"
  shows "exp_fits x"
  unfolding exp_fits_def
proof (intro conjI allI impI)
  fix j :: nat assume j: "j < 20"
  have "maclaurin_term x j * x \<le> (4 ^ j * DECIMALS) * (4 * DECIMALS)"
    by (rule mult_le_mono [OF maclaurin_term_bound [OF assms] assms])
  also have "\<dots> \<le> (4 ^ 20 * DECIMALS) * (4 * DECIMALS)"
    using j by (intro mult_le_mono power_increasing) simp_all
  also have "\<dots> < UINT_LIMIT" by (simp add: DECIMALS_def UINT_LIMIT_def)
  finally show "maclaurin_term x j * x < UINT_LIMIT" .
next
  have "maclaurin_sum x 20 \<le> 4 ^ Suc 20 * DECIMALS" by (rule maclaurin_sum_bound [OF assms])
  also have "\<dots> < UINT_LIMIT" by (simp add: DECIMALS_def UINT_LIMIT_def)
  finally show "maclaurin_sum x 20 < UINT_LIMIT" .
qed


lemma MAX_CURVE_eq: "MAX_CURVE = 800000 * DECIMALS"
  by (simp add: MAX_CURVE_def MAX_SUPPLY_def INIT_SUPPLY_def DECIMALS_def)

lemma exponent_of_range: "raw \<le> MAX_CURVE \<Longrightarrow> exponent_of raw \<le> 4 * DECIMALS"
proof -
  assume "raw \<le> MAX_CURVE"
  then have "K * raw \<le> K * (800000 * DECIMALS)" by (simp add: MAX_CURVE_eq)
  then have "(K * raw) div DECIMALS \<le> (K * (800000 * DECIMALS)) div DECIMALS"
    by (rule div_le_mono)
  also have "\<dots> = K * 800000" by (simp add: DECIMALS_def)
  also have "\<dots> \<le> 4 * DECIMALS" by (simp add: K_def DECIMALS_def)
  finally show ?thesis by (simp add: exponent_of_def)
qed

lemma cost_total_in_range:
  assumes "c + a \<le> MAX_CURVE"
  shows "\<exists>v. calculateCost c a = Inr v"
proof -
  have x: "exponent_of (c + a) \<le> 4 * DECIMALS" by (rule exponent_of_range [OF assms])
  have "c + a \<le> 800000 * DECIMALS" using assms by (simp add: MAX_CURVE_eq)
  then have ca: "c + a \<le> 800000 * 10 ^ 18" by (simp add: DECIMALS_def)
  then have 1: "c + a < UINT_LIMIT" by (simp add: UINT_LIMIT_def)
  have "K * (c + a) \<le> K * (800000 * 10 ^ 18)" using ca by (rule mult_le_mono2)
  also have "\<dots> < UINT_LIMIT" by (simp add: K_def UINT_LIMIT_def)
  finally have 2: "K * (c + a) < UINT_LIMIT" .
  have 3: "exp_fits (exponent_of (c + a))" by (rule exp_fits_small [OF x])
  have "exp_spec (exponent_of (c + a)) \<le> 4 ^ Suc 20 * DECIMALS"
    using maclaurin_sum_bound [OF x, of 20] by (simp only: exp_spec_eq_sum20)
  then have "exp_spec (exponent_of (c + a)) - exp_spec (exponent_of c) \<le> 4 ^ Suc 20 * DECIMALS"
    by simp
  then have "INITIAL_PRICE * (exp_spec (exponent_of (c + a)) - exp_spec (exponent_of c))
               \<le> INITIAL_PRICE * (4 ^ Suc 20 * DECIMALS)"
    by (rule mult_le_mono2)
  also have "\<dots> < UINT_LIMIT" by (simp add: INITIAL_PRICE_def DECIMALS_def UINT_LIMIT_def)
  finally have 4: "INITIAL_PRICE * (exp_spec (exponent_of (c + a)) - exp_spec (exponent_of c))
                     < UINT_LIMIT" .
  show ?thesis using 1 2 3 4 by (simp add: calculateCost_Inr_iff)
qed

section \<open>Evaluation on concrete inputs\<close>

lemmas eval_defs = calculateCost_def calculateRefund_def exp_q18_def exp_loop.simps
  checked_add_def checked_mul_def checked_sub_def UINT_LIMIT_def K_def DECIMALS_def
  INITIAL_PRICE_def Let_def

lemma exp_q18_at_cap: "exp_q18 (K * 800000) = Inr 50435252932401309679"
  by (simp add: eval_defs)

lemma cost_first_token: "calculateCost 0 DECIMALS = Inr 11400783673837639"
  by (simp add: eval_defs)

section \<open>Claims on the pricing functions\<close>

text \<open>
  C8. For every input on which no intermediate product or sum overflows, \<open>exp\<close> returns the
  truncated Maclaurin sum of the specification: terms \<open>t\<^sub>0 = 10^18\<close>,
  \<open>t\<^sub>i = (t\<^sub>i\<^sub>-\<^sub>1 * x) div (i * 10^18)\<close>, summed for at most 20 iterations and stopping with the
  first term that is zero. On every other input the call aborts with an arithmetic panic.
\<close>

theorem exp_q18_equals_maclaurin:
  "exp_q18 x = (if exp_fits x then Inr (exp_spec x) else Inl Panic)"
  by (rule exp_q18_spec)

theorem exp_q18_equals_maclaurin_witness:
  "exp_fits (K * 800000) \<and> exp_q18 (K * 800000) = Inr 50435252932401309679 \<and>
   exp_spec (K * 800000) = 50435252932401309679"
  using exp_q18_equals_maclaurin [of "K * 800000"] exp_q18_at_cap
  by (simp split: if_splits)

lemma cost_threshold: "DECIMALS \<le> K * a \<longleftrightarrow> 204046 \<le> a"
proof
  assume h: "DECIMALS \<le> K * a"
  show "204046 \<le> a"
  proof (rule ccontr)
    assume "\<not> 204046 \<le> a"
    then have "a \<le> 204045" by simp
    then have "K * a \<le> K * 204045" by (rule mult_le_mono2)
    also have "\<dots> < DECIMALS" by (simp add: K_def DECIMALS_def)
    finally show False using h by simp
  qed
next
  assume "204046 \<le> a"
  then have "K * 204046 \<le> K * a" by (rule mult_le_mono2)
  moreover have "DECIMALS \<le> K * 204046" by (simp add: K_def DECIMALS_def)
  ultimately show "DECIMALS \<le> K * a" by linarith
qed

text \<open>
  C7, as stated, fails: \<open>calculateCost\<close> takes raw units (\<open>10^-18\<close> token), and a positive
  \<open>delta\<close> of up to 204045 raw units at supply 0 leaves both truncated exponents equal, so
  the cost is 0.
\<close>

theorem cost_zero_counterexample:
  "(0::nat) < 204045 \<and> calculateCost 0 204045 = Inr 0"
  by (simp add: eval_defs)

text \<open>
  C7, amended. Whenever \<open>calculateCost(supply, delta)\<close> returns and \<open>delta\<close> is at least
  204046 raw units (that is \<open>K * delta \<ge> 10^18\<close>; every whole-token amount is), the cost is
  strictly positive, and at least \<open>INITIAL_PRICE div K = 2326\<close>.
\<close>

theorem cost_positive_from_threshold:
  assumes "calculateCost supply delta = Inr v" and "204046 \<le> delta"
  shows "0 < v \<and> INITIAL_PRICE div K \<le> v"
proof -
  have "INITIAL_PRICE div K \<le> v"
    using cost_positive [OF assms(1)] assms(2) by (simp add: cost_threshold)
  moreover have "0 < INITIAL_PRICE div K" by (simp add: INITIAL_PRICE_def K_def)
  ultimately show ?thesis by linarith
qed

theorem cost_positive_from_threshold_witness:
  "calculateCost 0 DECIMALS = Inr 11400783673837639 \<and> 204046 \<le> DECIMALS \<and>
   (0::nat) < 11400783673837639 \<and> INITIAL_PRICE div K \<le> 11400783673837639"
  using cost_positive_from_threshold [of 0 DECIMALS 11400783673837639] cost_first_token
  by (simp add: DECIMALS_def)

section \<open>Decomposing successful calls\<close>

lemma require_Inr_iff [simp]: "require c msg = Inr u \<longleftrightarrow> c"
  by (simp add: require_def)

lemma require_Inl_iff [simp]: "require c msg = Inl e \<longleftrightarrow> \<not> c \<and> e = Revert msg"
  by (auto simp: require_def)

lemma checked_add_Inr_iff [simp]: "checked_add a b = Inr c \<longleftrightarrow> a + b < UINT_LIMIT \<and> c = a + b"
  by (auto simp: checked_add_def)

lemma checked_sub_Inr_iff [simp]: "checked_sub a b = Inr c \<longleftrightarrow> b \<le> a \<and> c = a - b"
  by (auto simp: checked_sub_def)

lemma checked_mul_Inr_iff [simp]: "checked_mul a b = Inr c \<longleftrightarrow> a * b < UINT_LIMIT \<and> c = a * b"
  by (auto simp: checked_mul_def)

lemma nonReentrant_Inr_iff:
  "nonReentrant s body = Inr (s', r, fx) \<longleftrightarrow>
     status s \<noteq> ENTERED \<and>
     (\<exists>s1. body (s\<lparr>status := ENTERED\<rparr>) = Inr (s1, r, fx) \<and> s' = s1\<lparr>status := NOT_ENTERED\<rparr>)"
  by (auto simp: nonReentrant_def rbind_Inr_iff)

lemma createMemeToken_InrD:
  assumes "createMemeToken s m nm symb img descr a = Inr (s', r, fx)"
  shows "MEMETOKEN_CREATION_FEE \<le> msg_value m \<and>
         protocolFeeBalance s' = protocolFeeBalance s + msg_value m \<and>
         this_balance s' = this_balance s + msg_value m \<and>
         r = a \<and> fx = [Emit (MemeTokenCreated a (msg_sender m) (block_timestamp m))]"
  using assms
  by (auto simp: createMemeToken_def nonReentrant_Inr_iff rbind_Inr_iff Let_def
      split: if_splits)

lemma buy_facts:
  assumes "buyMemeToken s m a q acc env = Inr (s', r, fx)"
  shows "\<exists>curveCost. calculateCost (curveSupply s a) (fill_raw s a q) = Inr curveCost \<and>
           r = curveCost + trading_fee curveCost \<and> r \<le> msg_value m \<and>
           status s \<noteq> ENTERED \<and> tokenAddress (addressToMemeToken s a) = a \<and> a \<noteq> 0 \<and>
           \<not> isLaunched (addressToMemeToken s a) \<and> curveSupply s a < MAX_CURVE \<and>
           q * DECIMALS < UINT_LIMIT \<and> 0 < fill_raw s a q"
  using assms
  apply (simp add: buyMemeToken_def nonReentrant_Inr_iff rbind_Inr_iff Let_def fill_raw_def trading_fee_def MAX_CURVE_def min_def
      split: if_splits prod.splits)
  apply auto
  done

lemma with_token_Inr_iff:
  "with_token s a f = Inr s' \<longleftrightarrow>
     (\<exists>t t'. tokens s a = Some t \<and> f t = Inr t' \<and> s' = s\<lparr>tokens := (tokens s)(a \<mapsto> t')\<rparr>)"
  by (auto simp: with_token_def rbind_Inr_iff split: option.splits)

lemma send_value_cases:
  "send_value s amount acc = (ok, s') \<Longrightarrow>
     (ok \<and> acc \<and> amount \<le> this_balance s \<and> s' = s\<lparr>this_balance := this_balance s - amount\<rparr>) \<or>
     (\<not> ok \<and> s' = s)"
  by (auto simp: send_value_def split: if_splits)

lemma int_mint_InrD:
  "int_mint t to amount = Inr t' \<Longrightarrow>
     to \<noteq> 0 \<and> totalSupply t + amount \<le> maxSupply t \<and>
     t' = t\<lparr>totalSupply := totalSupply t + amount, balances := (balances t)(to := balances t to + amount)\<rparr>"
  by (auto simp: int_mint_def rbind_Inr_iff)

lemma int_transfer_InrD:
  "int_transfer t from to amount = Inr t' \<Longrightarrow>
     from \<noteq> 0 \<and> to \<noteq> 0 \<and> amount \<le> balances t from \<and>
     t' = t\<lparr>balances := ((balances t)(from := balances t from - amount))
            (to := ((balances t)(from := balances t from - amount)) to + amount)\<rparr>"
  by (auto simp: int_transfer_def rbind_Inr_iff Let_def)

lemma int_approve_InrD:
  "int_approve t ownr spender amount = Inr t' \<Longrightarrow>
     t' = t\<lparr>allowances := (allowances t)(ownr := (allowances t ownr)(spender := amount))\<rparr>"
  by (auto simp: int_approve_def rbind_Inr_iff)

lemma int_burn_InrD:
  "int_burn t from amount = Inr t' \<Longrightarrow>
     from \<noteq> 0 \<and> amount \<le> balances t from \<and> amount \<le> totalSupply t \<and>
     t' = t\<lparr>balances := (balances t)(from := balances t from - amount),
            totalSupply := totalSupply t - amount\<rparr>"
  by (auto simp: int_burn_def rbind_Inr_iff Let_def)

lemma approve_InrD:
  "approve t caller spender amount = Inr t' \<Longrightarrow>
     totalSupply t' = totalSupply t \<and> maxSupply t' = maxSupply t \<and> balances t' = balances t
     \<and> factory t' = factory t"
  by (auto simp: approve_def dest!: int_approve_InrD)

lemma transferFrom_InrD:
  assumes "transferFrom t caller from to amount = Inr t'"
  shows "totalSupply t' = totalSupply t \<and> maxSupply t' = maxSupply t \<and> factory t' = factory t \<and>
         (\<forall>u. u \<noteq> from \<and> u \<noteq> to \<longrightarrow> balances t' u = balances t u)"
proof -
  from assms obtain t1 where 1: "int_approve t from caller (allowances t from caller - amount) = Inr t1"
    and 2: "int_transfer t1 from to amount = Inr t'"
    by (auto simp: transferFrom_def rbind_Inr_iff Let_def)
  from int_approve_InrD [OF 1] have a: "totalSupply t1 = totalSupply t" "maxSupply t1 = maxSupply t"
    "balances t1 = balances t" "factory t1 = factory t" by simp_all
  from int_transfer_InrD [OF 2] have b: "totalSupply t' = totalSupply t1" "maxSupply t' = maxSupply t1"
    "factory t' = factory t1"
    "\<forall>u. u \<noteq> from \<and> u \<noteq> to \<longrightarrow> balances t' u = balances t1 u" by simp_all
  show ?thesis using a b by simp
qed

lemma launchOnUniswap_InrD:
  assumes "launchOnUniswap s a eth env = Inr s'"
  shows "\<exists>t t'. tokens s a = Some t \<and> 0 < eth \<and> eth \<le> this_balance s \<and>
           s' = s\<lparr>this_balance := this_balance s - eth, tokens := (tokens s)(a \<mapsto> t')\<rparr> \<and>
           totalSupply t' = totalSupply t \<and> maxSupply t' = maxSupply t \<and> factory t' = factory t \<and>
           (\<forall>u. u \<noteq> this_address s \<and> u \<noteq> pair env \<longrightarrow> balances t' u = balances t u)"
proof -
  from assms have eth: "0 < eth" and pool: "pool_ok env"
    by (auto simp: launchOnUniswap_def rbind_Inr_iff split: if_splits)
  from assms eth pool obtain t where t: "tokens s a = Some t"
    by (auto simp: launchOnUniswap_def rbind_Inr_iff split: if_splits option.splits)
  from assms eth pool t obtain s1 where
    s1: "with_token s a (\<lambda>t. approve t (this_address s) (uniswapRouter s) INIT_SUPPLY) = Inr s1"
    and rest: "(if \<not> (add_ok env \<and> eth \<le> this_balance s1) then Inl ExternalFailure
            else
              rbind (with_token (s1\<lparr>this_balance := this_balance s1 - eth\<rparr>) a
                       (\<lambda>t. transferFrom t (uniswapRouter s) (this_address s) (pair env)
                              INIT_SUPPLY)) (\<lambda>s2.
              rbind (require (liquidity env > 0) ''No liquidity minted'') (\<lambda>_.
              if \<not> lock_ok env then Inl ExternalFailure else Inr s2))) = Inr s'"
    by (auto simp: launchOnUniswap_def rbind_Inr_iff)
  from s1 t obtain t1 where t1: "approve t (this_address s) (uniswapRouter s) INIT_SUPPLY = Inr t1"
    and s1_eq: "s1 = s\<lparr>tokens := (tokens s)(a \<mapsto> t1)\<rparr>"
    by (auto simp: with_token_Inr_iff)
  from rest have bal: "eth \<le> this_balance s1"
    and s2: "with_token (s1\<lparr>this_balance := this_balance s1 - eth\<rparr>) a
                       (\<lambda>t. transferFrom t (uniswapRouter s) (this_address s) (pair env)
                              INIT_SUPPLY) = Inr s'"
    by (auto simp: rbind_Inr_iff split: if_splits)
  from s2 s1_eq obtain t2 where
    t2: "transferFrom t1 (uniswapRouter s) (this_address s) (pair env) INIT_SUPPLY = Inr t2"
    and s'_eq: "s' = s1\<lparr>this_balance := this_balance s1 - eth, tokens := (tokens s1)(a \<mapsto> t2)\<rparr>"
    by (auto simp: with_token_Inr_iff)
  have "s' = s\<lparr>this_balance := this_balance s - eth, tokens := (tokens s)(a \<mapsto> t2)\<rparr>"
    by (simp add: s'_eq s1_eq)
  moreover note approve_InrD [OF t1] transferFrom_InrD [OF t2]
  ultimately show ?thesis using t eth bal s1_eq by auto
qed

lemma refund_excess_InrD:
  assumes "refund_excess s m tot acc = Inr (s', fx)"
  shows "(msg_value m > tot \<longrightarrow> acc \<and> msg_value m - tot \<le> this_balance s) \<and>
         s' = s\<lparr>this_balance := this_balance s - (msg_value m - tot)\<rparr> \<and>
         fx = (if msg_value m > tot then [Send (msg_sender m) (msg_value m - tot)] else [])"
  using assms
  by (auto simp: refund_excess_def send_value_def rbind_Inr_iff Let_def split: if_splits)

lemma buy_structure:
  assumes "buyMemeToken s m a q acc env = Inr (s', r, fx)"
  shows "\<exists>curveCost t t1 s4 s5 fx2.
    calculateCost (curveSupply s a) (fill_raw s a q) = Inr curveCost \<and>
    r = curveCost + trading_fee curveCost \<and> r \<le> msg_value m \<and>
    protocolFeeBalance s + trading_fee curveCost < UINT_LIMIT \<and>
    fundingRaised (addressToMemeToken s a) + curveCost < UINT_LIMIT \<and>
    tokens s a = Some t \<and>
    mint t (this_address s) (fill_raw s a q) (msg_sender m) = Inr t1 \<and>
    (msg_value m > r \<longrightarrow> acc) \<and>
    s4 = s\<lparr>status := ENTERED,
           protocolFeeBalance := protocolFeeBalance s + trading_fee curveCost,
           addressToMemeToken := (addressToMemeToken s)(a :=
              (addressToMemeToken s a)\<lparr>fundingRaised := fundingRaised (addressToMemeToken s a) + curveCost\<rparr>),
           curveSupply := (curveSupply s)(a := curveSupply s a + fill_raw s a q),
           tokens := (tokens s)(a \<mapsto> t1),
           this_balance := this_balance s + msg_value m - (msg_value m - r)\<rparr> \<and>
    graduation s4 m a MAX_CURVE env = Inr (s5, fx2) \<and>
    s' = s5\<lparr>status := NOT_ENTERED\<rparr> \<and>
    fx = (Emit (TokenBought a (msg_sender m) (fill_raw s a q div DECIMALS) r (block_timestamp m)) #
          (if msg_value m > r then [Send (msg_sender m) (msg_value m - r)] else [])) @ fx2"
  using assms
  apply (simp add: buyMemeToken_def nonReentrant_Inr_iff rbind_Inr_iff Let_def fill_raw_def
      trading_fee_def MAX_CURVE_def min_def with_token_Inr_iff
      split: if_splits prod.splits)
   apply (auto dest!: refund_excess_InrD)
  done

lemma graduation_idle:
  assumes "\<not> (\<not> isLaunched (addressToMemeToken s a) \<and>
            (MEMECOIN_FUNDING_GOAL \<le> fundingRaised (addressToMemeToken s a) \<or> cap \<le> curveSupply s a))"
  shows "graduation s m a cap env = Inr (s, [])"
  using assms by (auto simp: graduation_def Let_def)

lemma graduation_launch:
  assumes "graduation s m a cap env = Inr (s', fx)"
    and "\<not> isLaunched (addressToMemeToken s a)"
    and "MEMECOIN_FUNDING_GOAL \<le> fundingRaised (addressToMemeToken s a) \<or> cap \<le> curveSupply s a"
  shows "\<exists>t t' fee.
     fee = (if listingFee s > 0 \<and> fundingRaised (addressToMemeToken s a) > listingFee s
            then listingFee s else 0) \<and>
     tokens s a = Some t \<and>
     s' = s\<lparr>protocolFeeBalance := protocolFeeBalance s + fee,
            addressToMemeToken := (addressToMemeToken s)(a :=
               (addressToMemeToken s a)\<lparr>isLaunched := True, fundingRaised := 0\<rparr>),
            this_balance := this_balance s - (fundingRaised (addressToMemeToken s a) - fee),
            tokens := (tokens s)(a \<mapsto> t')\<rparr> \<and>
     fx = [Emit (TokenLaunched a (fundingRaised (addressToMemeToken s a) - fee) fee (block_timestamp m))] \<and>
     0 < fundingRaised (addressToMemeToken s a) - fee \<and>
     fundingRaised (addressToMemeToken s a) - fee \<le> this_balance s \<and>
     totalSupply t' = totalSupply t \<and> maxSupply t' = maxSupply t \<and> factory t' = factory t \<and>
     (\<forall>u. u \<noteq> this_address s \<and> u \<noteq> pair env \<longrightarrow> balances t' u = balances t u)"
proof -
  let ?mt = "addressToMemeToken s a"
  let ?takes = "listingFee s > 0 \<and> fundingRaised ?mt > listingFee s"
  let ?fee = "if ?takes then listingFee s else 0"
  let ?lp = "fundingRaised ?mt - ?fee"
  let ?pfb = "protocolFeeBalance s + ?fee"
  let ?s1 = "s\<lparr>protocolFeeBalance := ?pfb,
               addressToMemeToken := (addressToMemeToken s)(a := ?mt\<lparr>isLaunched := True, fundingRaised := 0\<rparr>)\<rparr>"
  from assms obtain s2 where l: "launchOnUniswap ?s1 a ?lp env = Inr s2"
    and s': "s' = s2" and fx: "fx = [Emit (TokenLaunched a ?lp ?fee (block_timestamp m))]"
    by (auto simp: graduation_def Let_def rbind_Inr_iff split: if_splits)
  from launchOnUniswap_InrD [OF l] obtain t t' where
    "tokens ?s1 a = Some t" "0 < ?lp" "?lp \<le> this_balance ?s1"
    "s2 = ?s1\<lparr>this_balance := this_balance ?s1 - ?lp, tokens := (tokens ?s1)(a \<mapsto> t')\<rparr>"
    "totalSupply t' = totalSupply t" "maxSupply t' = maxSupply t" "factory t' = factory t"
    "\<forall>u. u \<noteq> this_address ?s1 \<and> u \<noteq> pair env \<longrightarrow> balances t' u = balances t u"
    by blast
  then show ?thesis using s' fx by (intro exI [of _ t] exI [of _ t'] exI [of _ ?fee]) simp
qed

lemma sell_structure:
  assumes "sellMemeToken s m a q acc = Inr (s', r, fx)"
  shows "\<exists>refund t t1.
    status s \<noteq> ENTERED \<and> tokenAddress (addressToMemeToken s a) = a \<and> a \<noteq> 0 \<and>
    \<not> isLaunched (addressToMemeToken s a) \<and> q * DECIMALS < UINT_LIMIT \<and>
    tokens s a = Some t \<and> q * DECIMALS \<le> balances t (msg_sender m) \<and>
    q * DECIMALS \<le> curveSupply s a \<and>
    calculateRefund (curveSupply s a) (q * DECIMALS) = Inr refund \<and>
    refund \<le> fundingRaised (addressToMemeToken s a) \<and>
    trading_fee refund \<le> refund \<and>
    r = refund - trading_fee refund \<and>
    burn t (this_address s) (q * DECIMALS) (msg_sender m) = Inr t1 \<and>
    acc \<and> r \<le> this_balance s \<and>
    s' = s\<lparr>protocolFeeBalance := protocolFeeBalance s + trading_fee refund,
           addressToMemeToken := (addressToMemeToken s)(a :=
              (addressToMemeToken s a)\<lparr>fundingRaised := fundingRaised (addressToMemeToken s a) - refund\<rparr>),
           curveSupply := (curveSupply s)(a := curveSupply s a - q * DECIMALS),
           tokens := (tokens s)(a \<mapsto> t1),
           this_balance := this_balance s - r,
           status := NOT_ENTERED\<rparr> \<and>
    fx = [Send (msg_sender m) r, Emit (TokenSold a (msg_sender m) q r (block_timestamp m))]"
  using assms
  apply (simp add: sellMemeToken_def nonReentrant_Inr_iff rbind_Inr_iff Let_def
      trading_fee_def with_token_Inr_iff balanceOf_def send_value_def
      split: if_splits prod.splits option.splits)
  apply auto
  done

section \<open>The latch and the invariant\<close>


lemma buy_state:
  assumes "buyMemeToken s m a q acc env = Inr (s', r, fx)"
  shows "status s' = NOT_ENTERED \<and>
         curveSupply s' = (curveSupply s)(a := curveSupply s a + fill_raw s a q) \<and>
         (\<forall>b. b \<noteq> a \<longrightarrow> addressToMemeToken s' b = addressToMemeToken s b) \<and>
         tokenAddress (addressToMemeToken s' a) = a \<and>
         (\<forall>b. b \<noteq> a \<longrightarrow> tokens s' b = tokens s b) \<and> tokens s' a \<noteq> None"
proof -
  from buy_structure [OF assms] obtain curveCost t t1 s4 s5 fx2 where
    s4: "s4 = s\<lparr>status := ENTERED,
           protocolFeeBalance := protocolFeeBalance s + trading_fee curveCost,
           addressToMemeToken := (addressToMemeToken s)(a :=
              (addressToMemeToken s a)\<lparr>fundingRaised := fundingRaised (addressToMemeToken s a) + curveCost\<rparr>),
           curveSupply := (curveSupply s)(a := curveSupply s a + fill_raw s a q),
           tokens := (tokens s)(a \<mapsto> t1),
           this_balance := this_balance s + msg_value m - (msg_value m - r)\<rparr>"
    and g: "graduation s4 m a MAX_CURVE env = Inr (s5, fx2)"
    and s': "s' = s5\<lparr>status := NOT_ENTERED\<rparr>"
    by blast
  have known: "tokenAddress (addressToMemeToken s a) = a"
    using buy_facts [OF assms] by blast
  show ?thesis
  proof (cases "\<not> isLaunched (addressToMemeToken s4 a) \<and>
            (MEMECOIN_FUNDING_GOAL \<le> fundingRaised (addressToMemeToken s4 a) \<or> MAX_CURVE \<le> curveSupply s4 a)")
    case False
    from graduation_idle [OF False, of m env] g have "s5 = s4" by simp
    then show ?thesis using s' s4 known by simp
  next
    case True
    from graduation_launch [OF g] True obtain t' fee where
      "s5 = s4\<lparr>protocolFeeBalance := protocolFeeBalance s4 + fee,
            addressToMemeToken := (addressToMemeToken s4)(a :=
               (addressToMemeToken s4 a)\<lparr>isLaunched := True, fundingRaised := 0\<rparr>),
            this_balance := this_balance s4 - (fundingRaised (addressToMemeToken s4 a) - fee),
            tokens := (tokens s4)(a \<mapsto> t')\<rparr>"
      by blast
    then show ?thesis using s' s4 known by simp
  qed
qed















lemma reachable_step: "reachable s \<Longrightarrow> reachable (step s mc)"
proof -
  assume "reachable s"
  then obtain deployer self fct router fee s0 cs where
    "TokenFactory_constructor deployer self fct router fee = Inr s0" "s = run s0 cs"
    by (auto simp: reachable_def)
  then have "TokenFactory_constructor deployer self fct router fee = Inr s0 \<and>
             step s mc = run s0 (cs @ [mc])"
    by (simp add: run_def)
  then show ?thesis unfolding reachable_def by blast
qed


section \<open>Claims on buying, selling and creating\<close>

lemma sent_append [simp]: "sent (xs @ ys) = sent xs @ sent ys"
  by (induction xs rule: sent.induct) auto



lemma NOT_ENTERED_neq [simp]: "NOT_ENTERED \<noteq> ENTERED"
  by (simp add: NOT_ENTERED_def ENTERED_def)





text \<open>
  C3, amended. A successful \<open>buyMemeToken\<close> returns \<open>totalRequired\<close>, the amount charged
  (curve cost of the filled quantity plus the 1% fee), and reports the filled quantity of
  whole tokens in its \<open>TokenBought\<close> event. A successful \<open>sellMemeToken\<close> returns the net
  payout (gross refund minus the 1% fee), which is also the one amount it sends to the
  caller.
\<close>

theorem buy_and_sell_return_values:
  "(buyMemeToken s m a q acc env = Inr (s', r, fx) \<longrightarrow>
      (\<exists>curveCost. calculateCost (curveSupply s a) (fill_raw s a q) = Inr curveCost \<and>
         r = curveCost + trading_fee curveCost \<and>
         hd fx = Emit (TokenBought a (msg_sender m) (fill_raw s a q div DECIMALS) r
                        (block_timestamp m)))) \<and>
   (sellMemeToken s m a q acc = Inr (s', r, fx) \<longrightarrow>
      (\<exists>refund. calculateRefund (curveSupply s a) (q * DECIMALS) = Inr refund \<and>
         r = refund - trading_fee refund \<and> sent fx = [(msg_sender m, r)]))"
proof (intro conjI impI)
  assume "buyMemeToken s m a q acc env = Inr (s', r, fx)"
  from buy_structure [OF this]
  show "\<exists>curveCost. calculateCost (curveSupply s a) (fill_raw s a q) = Inr curveCost \<and>
         r = curveCost + trading_fee curveCost \<and>
         hd fx = Emit (TokenBought a (msg_sender m) (fill_raw s a q div DECIMALS) r
                        (block_timestamp m))"
    by auto
next
  assume "sellMemeToken s m a q acc = Inr (s', r, fx)"
  from sell_structure [OF this]
  show "\<exists>refund. calculateRefund (curveSupply s a) (q * DECIMALS) = Inr refund \<and>
         r = refund - trading_fee refund \<and> sent fx = [(msg_sender m, r)]"
    by auto
qed


lemma mint_InrD:
  "mint t caller amount to = Inr t' \<Longrightarrow>
     caller = factory t \<and>
     t' = t\<lparr>totalSupply := totalSupply t + amount, balances := (balances t)(to := balances t to + amount)\<rparr>"
  by (auto simp: mint_def rbind_Inr_iff dest!: int_mint_InrD)

lemma graduation_sent: "graduation s m a cap env = Inr (s', fx) \<Longrightarrow> sent fx = []"
  by (auto simp: graduation_def Let_def rbind_Inr_iff split: if_splits)

lemma buy_sent:
  assumes "buyMemeToken s m a q acc env = Inr (s', r, fx)"
  shows "sent fx = (if r < msg_value m then [(msg_sender m, msg_value m - r)] else [])"
proof -
  from buy_structure [OF assms] obtain s4 s5 fx2 where
    "graduation s4 m a MAX_CURVE env = Inr (s5, fx2)"
    "fx = (Emit (TokenBought a (msg_sender m) (fill_raw s a q div DECIMALS) r (block_timestamp m)) #
          (if msg_value m > r then [Send (msg_sender m) (msg_value m - r)] else [])) @ fx2"
    by blast
  then show ?thesis using graduation_sent [of s4 m a MAX_CURVE env s5 fx2] by simp
qed

lemma buy_token_effect:
  assumes buy: "buyMemeToken s m a q acc env = Inr (s', r, fx)"
  shows "\<exists>t t'. tokens s a = Some t \<and> tokens s' a = Some t' \<and>
           totalSupply t' = totalSupply t + fill_raw s a q \<and>
           (\<forall>u. u \<noteq> this_address s \<and> u \<noteq> pair env \<longrightarrow>
              balances t' u = balances t u + (if u = msg_sender m then fill_raw s a q else 0))"
proof -
  from buy_structure [OF buy] obtain curveCost t t1 s4 s5 fx2 where
    t: "tokens s a = Some t"
    and m: "mint t (this_address s) (fill_raw s a q) (msg_sender m) = Inr t1"
    and s4: "s4 = s\<lparr>status := ENTERED,
           protocolFeeBalance := protocolFeeBalance s + trading_fee curveCost,
           addressToMemeToken := (addressToMemeToken s)(a :=
              (addressToMemeToken s a)\<lparr>fundingRaised := fundingRaised (addressToMemeToken s a) + curveCost\<rparr>),
           curveSupply := (curveSupply s)(a := curveSupply s a + fill_raw s a q),
           tokens := (tokens s)(a \<mapsto> t1),
           this_balance := this_balance s + msg_value m - (msg_value m - r)\<rparr>"
    and g: "graduation s4 m a MAX_CURVE env = Inr (s5, fx2)"
    and s': "s' = s5\<lparr>status := NOT_ENTERED\<rparr>"
    by blast
  from mint_InrD [OF m] have t1: "totalSupply t1 = totalSupply t + fill_raw s a q"
    "\<forall>u. balances t1 u = balances t u + (if u = msg_sender m then fill_raw s a q else 0)"
    by auto
  have nl: "\<not> isLaunched (addressToMemeToken s4 a)" using buy_facts [OF buy] s4 by auto
  show ?thesis
  proof (cases "MEMECOIN_FUNDING_GOAL \<le> fundingRaised (addressToMemeToken s4 a) \<or> MAX_CURVE \<le> curveSupply s4 a")
    case False
    then have "graduation s4 m a MAX_CURVE env = Inr (s4, [])" by (intro graduation_idle) simp
    with g have "s5 = s4" by simp
    then have "tokens s' a = Some t1" using s' s4 by simp
    then show ?thesis using t t1 by simp
  next
    case True
    from graduation_launch [OF g nl True] obtain ta t' where
      "tokens s4 a = Some ta" "tokens s5 a = Some t'" "totalSupply t' = totalSupply ta"
      "\<forall>u. u \<noteq> this_address s4 \<and> u \<noteq> pair env \<longrightarrow> balances t' u = balances ta u"
      by auto
    moreover have "tokens s4 a = Some t1" "this_address s4 = this_address s" using s4 by simp_all
    ultimately have "tokens s' a = Some t'" "totalSupply t' = totalSupply t1"
      "\<forall>u. u \<noteq> this_address s \<and> u \<noteq> pair env \<longrightarrow> balances t' u = balances t1 u"
      using s' by auto
    then show ?thesis using t t1 by simp
  qed
qed

text \<open>
  C4. A successful buy whose requested raw quantity exceeds the remaining curve supply
  fills exactly the remaining supply: the amount charged is the curve cost of that
  remainder plus the fee on that cost, the token's total supply grows by the remainder and
  it is credited to the caller (stated for a caller other than the factory and the pair,
  whose balances the launch moves), the curve supply ends at the cap, and the only transfer
  to the caller is the payment minus the amount charged (none when they are equal).
\<close>

theorem buy_partial_fill:
  assumes buy: "buyMemeToken s m a q acc env = Inr (s', r, fx)"
    and over: "MAX_CURVE - curveSupply s a < q * DECIMALS"
  shows "\<exists>cost t t'.
           calculateCost (curveSupply s a) (MAX_CURVE - curveSupply s a) = Inr cost \<and>
           r = cost + trading_fee cost \<and>
           curveSupply s' a = MAX_CURVE \<and>
           tokens s a = Some t \<and> tokens s' a = Some t' \<and>
           totalSupply t' = totalSupply t + (MAX_CURVE - curveSupply s a) \<and>
           (msg_sender m \<noteq> this_address s \<and> msg_sender m \<noteq> pair env \<longrightarrow>
              balances t' (msg_sender m) = balances t (msg_sender m) + (MAX_CURVE - curveSupply s a)) \<and>
           sent fx = (if r < msg_value m then [(msg_sender m, msg_value m - r)] else []) \<and>
           hd fx = Emit (TokenBought a (msg_sender m) ((MAX_CURVE - curveSupply s a) div DECIMALS) r
                          (block_timestamp m))"
proof -
  have f: "fill_raw s a q = MAX_CURVE - curveSupply s a"
    using over by (simp add: fill_raw_def)
  from buy_facts [OF buy] have lt: "curveSupply s a < MAX_CURVE" by blast
  from buy_structure [OF buy] obtain cost where
    1: "calculateCost (curveSupply s a) (fill_raw s a q) = Inr cost" "r = cost + trading_fee cost"
    "hd fx = Emit (TokenBought a (msg_sender m) (fill_raw s a q div DECIMALS) r (block_timestamp m))"
    by auto
  from buy_token_effect [OF buy] obtain t t' where
    2: "tokens s a = Some t" "tokens s' a = Some t'"
    "totalSupply t' = totalSupply t + fill_raw s a q"
    "\<forall>u. u \<noteq> this_address s \<and> u \<noteq> pair env \<longrightarrow>
        balances t' u = balances t u + (if u = msg_sender m then fill_raw s a q else 0)"
    by blast
  have 3: "curveSupply s' a = MAX_CURVE" using buy_state [OF buy] f lt by simp
  show ?thesis using 1 2 3 buy_sent [OF buy] unfolding f by auto
qed

lemma checked_sub_MAX: "checked_sub MAX_SUPPLY INIT_SUPPLY = Inr MAX_CURVE"
  by (simp add: checked_sub_def MAX_CURVE_def MAX_SUPPLY_def INIT_SUPPLY_def)

text \<open>
  C9. On an asset of the factory that is not launched, \<open>buyMemeToken\<close> with \<open>tokenQty = 0\<close>
  fails, with \<open>"Curve complete"\<close> when no curve supply remains and with
  \<open>"Nothing to buy"\<close> otherwise, and the state stays as it was. The hypotheses on \<open>status\<close>
  and on the curve supply hold in every reachable state (\<open>reachable_invariant\<close>).
\<close>

theorem buy_zero_always_fails:
  assumes "status s \<noteq> ENTERED" and "tokenAddress (addressToMemeToken s a) = a" and "a \<noteq> 0"
    and "\<not> isLaunched (addressToMemeToken s a)" and "curveSupply s a \<le> MAX_CURVE"
  shows "buyMemeToken s m a 0 acc env =
           Inl (Revert (if curveSupply s a = MAX_CURVE then ''Curve complete'' else ''Nothing to buy'')) \<and>
         step s (m, BuyMemeToken a 0 acc env) = s"
proof -
  have "buyMemeToken s m a 0 acc env =
           Inl (Revert (if curveSupply s a = MAX_CURVE then ''Curve complete'' else ''Nothing to buy''))"
  proof -
    have a: "checked_sub MAX_CURVE (curveSupply s a) = Inr (MAX_CURVE - curveSupply s a)"
      using assms(5) by (simp add: checked_sub_def)
    have b: "checked_mul 0 DECIMALS = Inr 0"
      by (simp add: checked_mul_def UINT_LIMIT_def)
    show ?thesis
      using assms by (auto simp: buyMemeToken_def nonReentrant_def Let_def checked_sub_MAX a b)
  qed
  then show ?thesis by (simp add: step_def)
qed

text \<open>
  C10. A successful \<open>createMemeToken\<close> has received at least the creation fee, adds the
  whole payment to \<open>protocolFeeBalance\<close>, keeps the whole payment in the contract's balance
  and sends nothing back. A call that pays at least the fee succeeds when it is not
  re-entrant, the fee balance does not overflow and the token is deployed at a fresh
  address.
\<close>

theorem create_keeps_whole_payment:
  "(createMemeToken s m nm symb img descr a = Inr (s', r, fx) \<longrightarrow>
      MEMETOKEN_CREATION_FEE \<le> msg_value m \<and>
      protocolFeeBalance s' = protocolFeeBalance s + msg_value m \<and>
      this_balance s' = this_balance s + msg_value m \<and> sent fx = []) \<and>
   (status s \<noteq> ENTERED \<and> MEMETOKEN_CREATION_FEE \<le> msg_value m \<and>
    protocolFeeBalance s + msg_value m < UINT_LIMIT \<and>
    a \<noteq> 0 \<and> a \<noteq> this_address s \<and> tokens s a = None \<and> this_address s \<noteq> 0 \<longrightarrow>
      (\<exists>s2. createMemeToken s m nm symb img descr a =
               Inr (s2, a, [Emit (MemeTokenCreated a (msg_sender m) (block_timestamp m))])))"
proof -
  have 1: "MEMETOKEN_CREATION_FEE \<le> msg_value m \<and>
      protocolFeeBalance s' = protocolFeeBalance s + msg_value m \<and>
      this_balance s' = this_balance s + msg_value m \<and> sent fx = []"
    if "createMemeToken s m nm symb img descr a = Inr (s', r, fx)"
    using createMemeToken_InrD [OF that] by simp
  have 2: "\<exists>s2. createMemeToken s m nm symb img descr a =
               Inr (s2, a, [Emit (MemeTokenCreated a (msg_sender m) (block_timestamp m))])"
    if "status s \<noteq> ENTERED \<and> MEMETOKEN_CREATION_FEE \<le> msg_value m \<and>
    protocolFeeBalance s + msg_value m < UINT_LIMIT \<and>
    a \<noteq> 0 \<and> a \<noteq> this_address s \<and> tokens s a = None \<and> this_address s \<noteq> 0"
    using that
    by (simp add: createMemeToken_def nonReentrant_def Let_def checked_add_def
        Token_constructor_def int_mint_def setFactory_def MAX_SUPPLY_def INIT_SUPPLY_def
        DECIMALS_def UINT_LIMIT_def)
  show ?thesis using 1 2 by blast
qed


section \<open>The example transactions, evaluated\<close>

lemmas ex_defs = alice_def bob_def ex_env_def zero_asset_def ex_s0_def ex_token_def ex_state_def
  ex_s1_def ex_s2_def ex_s3_def ex_t1_def

lemmas contract_defs = createMemeToken_def buyMemeToken_def sellMemeToken_def nonReentrant_def
  refund_excess_def graduation_def launchOnUniswap_def with_token_def send_value_def
  Token_constructor_def int_mint_def int_burn_def int_transfer_def int_approve_def mint_def
  burn_def approve_def transferFrom_def setFactory_def balanceOf_def
  MEMETOKEN_CREATION_FEE_def FEE_BPS_def BPS_DENOMINATOR_def MAX_SUPPLY_def INIT_SUPPLY_def
  MEMECOIN_FUNDING_GOAL_def ether_def NOT_ENTERED_def ENTERED_def

lemma ex_constructor: "TokenFactory_constructor 1 1000 2000 3000 (10 ^ 18) = Inr ex_s0"
  by (simp add: TokenFactory_constructor_def ex_defs)

lemma ex_create:
  "createMemeToken ex_s0 (alice 2000000000000) ''Meme'' ''MEME'' ''img'' ''d'' 5000 =
     Inr (ex_s1, 5000, [Emit (MemeTokenCreated 5000 11 1700000000)])"
  by (simp add: ex_defs contract_defs eval_defs fun_eq_iff)

lemma ex_buy1:
  "buyMemeToken ex_s1 (alice (10 ^ 18)) 5000 1 True ex_env =
     Inr (ex_s2, 11514791510576015,
          [Emit (TokenBought 5000 11 1 11514791510576015 1700000000),
           Send 11 988485208489423985])"
  by (simp add: ex_defs contract_defs eval_defs fun_eq_iff)


lemma ex_buy_big:
  "buyMemeToken ex_s1 (alice (120000 * 10 ^ 18)) 5000 799999 True ex_env =
     Inr (ex_t1, 116149419090117970126232,
          [Emit (TokenBought 5000 11 799999 116149419090117970126232 1700000000),
           Send 11 3850580909882029873768])"
  by (simp add: ex_defs contract_defs eval_defs fun_eq_iff)

lemma ex_buy_last:
  "buyMemeToken ex_t1 (bob (10 ^ 18)) 5000 10 True ex_env =
     Inr (ex_t2, 580748572637284709,
          [Emit (TokenBought 5000 12 1 580748572637284709 1700000600),
           Send 12 419251427362715291,
           Emit (TokenLaunched 5000 114998999840287730109843 (10 ^ 18) 1700000600)])"
  by (simp add: ex_t2_def step_def ex_defs contract_defs eval_defs fun_eq_iff)

lemma ex_sell1:
  "sellMemeToken ex_s2 (alice 0) 5000 1 True =
     Inr (ex_state 230015673476752 230015673476752 0 0, 11286775837099263,
          [Send 11 11286775837099263, Emit (TokenSold 5000 11 1 11286775837099263 1700000000)])"
  by (simp add: ex_defs contract_defs eval_defs fun_eq_iff)

lemma ex_sell3_alice:
  "sellMemeToken ex_s3 (alice 0) 5000 3 True = Inl (Revert ''Insufficient curve SEI'')"
  by (simp add: ex_defs contract_defs eval_defs fun_eq_iff)



lemma step_create:
  "createMemeToken s m nm symb img descr a = Inr (s', r, fx) \<Longrightarrow>
     step s (m, CreateMemeToken nm symb img descr a) = s'"
  by (simp add: step_def)

lemma step_buy:
  "buyMemeToken s m a q acc env = Inr (s', r, fx) \<Longrightarrow> step s (m, BuyMemeToken a q acc env) = s'"
  by (simp add: step_def)

lemma ex_s1_reachable: "reachable ex_s1"
proof -
  have "ex_s1 = run ex_s0 [(alice 2000000000000, CreateMemeToken ''Meme'' ''MEME'' ''img'' ''d'' 5000)]"
    by (simp only: run_def foldl.simps step_create [OF ex_create])
  with ex_constructor show ?thesis unfolding reachable_def by blast
qed


lemma ex_t1_reachable: "reachable ex_t1"
proof -
  have e: "step ex_s1 (alice (120000 * 10 ^ 18), BuyMemeToken 5000 799999 True ex_env) = ex_t1"
    by (simp only: step_buy [OF ex_buy_big])
  from reachable_step [OF ex_s1_reachable] show ?thesis unfolding e [symmetric] .
qed

lemma ex_cost_last: "calculateCost (799999 * DECIMALS) DECIMALS = Inr 574998586769588821"
  by (simp add: eval_defs)

lemma ex_t1_supply: "curveSupply ex_t1 5000 = 799999 * DECIMALS"
  by (simp add: ex_defs)





text \<open>
  C3, as stated, fails: a buy of 1 token returns 11514791510576015, the amount charged,
  and not the quantity filled, 1.
\<close>

theorem buy_returns_payment_counterexample:
  "buyMemeToken ex_s1 (alice (10 ^ 18)) 5000 1 True ex_env =
     Inr (ex_s2, 11514791510576015,
          [Emit (TokenBought 5000 11 1 11514791510576015 1700000000),
           Send 11 988485208489423985]) \<and>
   fill_raw ex_s1 5000 1 div DECIMALS = 1"
  using ex_buy1 by (simp add: fill_raw_def ex_defs MAX_CURVE_eq DECIMALS_def)

theorem buy_and_sell_return_values_witness:
  "buyMemeToken ex_s1 (alice (10 ^ 18)) 5000 1 True ex_env =
     Inr (ex_s2, 11514791510576015,
          [Emit (TokenBought 5000 11 1 11514791510576015 1700000000),
           Send 11 988485208489423985]) \<and>
   calculateCost (curveSupply ex_s1 5000) (fill_raw ex_s1 5000 1) = Inr 11400783673837639 \<and>
   11514791510576015 = 11400783673837639 + trading_fee 11400783673837639 \<and>
   sellMemeToken ex_s2 (alice 0) 5000 1 True =
     Inr (ex_state 230015673476752 230015673476752 0 0, 11286775837099263,
          [Send 11 11286775837099263, Emit (TokenSold 5000 11 1 11286775837099263 1700000000)]) \<and>
   calculateRefund (curveSupply ex_s2 5000) (1 * DECIMALS) = Inr 11400783673837639 \<and>
   11286775837099263 = 11400783673837639 - trading_fee 11400783673837639"
proof -
  from buy_and_sell_return_values [of ex_s1 "alice (10 ^ 18)" 5000 1 True ex_env ex_s2
      11514791510576015] ex_buy1
  obtain c where "calculateCost (curveSupply ex_s1 5000) (fill_raw ex_s1 5000 1) = Inr c"
    "11514791510576015 = c + trading_fee c"
    by auto
  moreover have "calculateCost (curveSupply ex_s1 5000) (fill_raw ex_s1 5000 1) = Inr 11400783673837639"
    using cost_first_token by (simp add: fill_raw_def ex_defs MAX_CURVE_eq DECIMALS_def)
  ultimately have b: "11514791510576015 = 11400783673837639 + trading_fee 11400783673837639"
    by simp
  from buy_and_sell_return_values [of ex_s2 "alice 0" 5000 1 True _
      "ex_state 230015673476752 230015673476752 0 0" 11286775837099263] ex_sell1
  obtain p where "calculateRefund (curveSupply ex_s2 5000) (1 * DECIMALS) = Inr p"
    "11286775837099263 = p - trading_fee p"
    by auto
  moreover have "calculateRefund (curveSupply ex_s2 5000) (1 * DECIMALS) = Inr 11400783673837639"
    by (simp add: ex_defs eval_defs)
  ultimately have s: "11286775837099263 = 11400783673837639 - trading_fee 11400783673837639"
    by simp
  show ?thesis
    using ex_buy1 ex_sell1 b s cost_first_token
    by (simp add: fill_raw_def ex_defs MAX_CURVE_eq DECIMALS_def eval_defs)
qed

theorem buy_partial_fill_witness:
  "buyMemeToken ex_t1 (bob (10 ^ 18)) 5000 10 True ex_env =
     Inr (ex_t2, 580748572637284709,
          [Emit (TokenBought 5000 12 1 580748572637284709 1700000600),
           Send 12 419251427362715291,
           Emit (TokenLaunched 5000 114998999840287730109843 (10 ^ 18) 1700000600)]) \<and>
   MAX_CURVE - curveSupply ex_t1 5000 = 1 * DECIMALS \<and>
   MAX_CURVE - curveSupply ex_t1 5000 < 10 * DECIMALS \<and>
   calculateCost (curveSupply ex_t1 5000) (1 * DECIMALS) = Inr 574998586769588821 \<and>
   580748572637284709 = 574998586769588821 + trading_fee 574998586769588821 \<and>
   curveSupply ex_t2 5000 = MAX_CURVE \<and>
   map_option totalSupply (tokens ex_t2 5000) = Some (MAX_SUPPLY) \<and>
   map_option (\<lambda>t. balances t 12) (tokens ex_t2 5000) = Some (1 * DECIMALS) \<and>
   msg_value (bob (10 ^ 18)) - 580748572637284709 = 419251427362715291"
proof -
  have a: "MAX_CURVE - curveSupply ex_t1 5000 = 1 * DECIMALS"
    by (simp add: ex_t1_supply MAX_CURVE_eq DECIMALS_def)
  have over: "MAX_CURVE - curveSupply ex_t1 5000 < 10 * DECIMALS"
    by (simp add: ex_t1_supply MAX_CURVE_eq DECIMALS_def)
  have c: "calculateCost (curveSupply ex_t1 5000) (1 * DECIMALS) = Inr 574998586769588821"
    using ex_cost_last by (simp add: ex_t1_supply)
  have t: "tokens ex_t1 5000 = Some (ex_token (799999 * DECIMALS))"
    by (simp add: ex_defs)
  from buy_partial_fill [OF ex_buy_last over] obtain cost t0 t' where
    "calculateCost (curveSupply ex_t1 5000) (MAX_CURVE - curveSupply ex_t1 5000) = Inr cost"
    "580748572637284709 = cost + trading_fee cost"
    "curveSupply ex_t2 5000 = MAX_CURVE"
    "tokens ex_t1 5000 = Some t0" "tokens ex_t2 5000 = Some t'"
    "totalSupply t' = totalSupply t0 + (MAX_CURVE - curveSupply ex_t1 5000)"
    "msg_sender (bob (10 ^ 18)) \<noteq> this_address ex_t1 \<and> msg_sender (bob (10 ^ 18)) \<noteq> pair ex_env \<longrightarrow>
       balances t' (msg_sender (bob (10 ^ 18))) =
       balances t0 (msg_sender (bob (10 ^ 18))) + (MAX_CURVE - curveSupply ex_t1 5000)"
    by blast
  moreover have "msg_sender (bob (10 ^ 18)) = 12" "this_address ex_t1 = 1000" "pair ex_env = 6000"
    by (simp_all add: ex_defs)
  moreover have "totalSupply (ex_token (799999 * DECIMALS)) + 1 * DECIMALS = MAX_SUPPLY"
    "balances (ex_token (799999 * DECIMALS)) 12 = 0"
    by (simp_all add: ex_defs MAX_SUPPLY_def INIT_SUPPLY_def DECIMALS_def)
  ultimately show ?thesis using ex_buy_last a over c t
    by (auto simp: bob_def)
qed

theorem buy_zero_always_fails_witness:
  "status ex_s1 \<noteq> ENTERED \<and> tokenAddress (addressToMemeToken ex_s1 5000) = 5000 \<and>
   \<not> isLaunched (addressToMemeToken ex_s1 5000) \<and> curveSupply ex_s1 5000 \<le> MAX_CURVE \<and>
   curveSupply ex_s1 5000 \<noteq> MAX_CURVE \<and>
   buyMemeToken ex_s1 (alice (10 ^ 18)) 5000 0 True ex_env = Inl (Revert ''Nothing to buy'') \<and>
   step ex_s1 (alice (10 ^ 18), BuyMemeToken 5000 0 True ex_env) = ex_s1"
proof -
  have h: "status ex_s1 \<noteq> ENTERED" "tokenAddress (addressToMemeToken ex_s1 5000) = 5000"
    "(5000::nat) \<noteq> 0" "\<not> isLaunched (addressToMemeToken ex_s1 5000)"
    "curveSupply ex_s1 5000 \<le> MAX_CURVE" "curveSupply ex_s1 5000 \<noteq> MAX_CURVE"
    by (simp_all add: ex_defs MAX_CURVE_eq DECIMALS_def NOT_ENTERED_def ENTERED_def)
  from buy_zero_always_fails [OF h(1-5), of "alice (10 ^ 18)" True ex_env] h
  show ?thesis by simp
qed

theorem create_keeps_whole_payment_witness:
  "createMemeToken ex_s0 (alice 2000000000000) ''Meme'' ''MEME'' ''img'' ''d'' 5000 =
     Inr (ex_s1, 5000, [Emit (MemeTokenCreated 5000 11 1700000000)]) \<and>
   MEMETOKEN_CREATION_FEE < msg_value (alice 2000000000000) \<and>
   protocolFeeBalance ex_s0 = 0 \<and> this_balance ex_s0 = 0 \<and>
   protocolFeeBalance ex_s1 = 2000000000000 \<and> this_balance ex_s1 = 2000000000000"
proof -
  from create_keeps_whole_payment [of ex_s0 "alice 2000000000000" "''Meme''" "''MEME''"
      "''img''" "''d''" 5000 ex_s1 5000 "[Emit (MemeTokenCreated 5000 11 1700000000)]"] ex_create
  have "protocolFeeBalance ex_s1 = protocolFeeBalance ex_s0 + msg_value (alice 2000000000000)"
    "this_balance ex_s1 = this_balance ex_s0 + msg_value (alice 2000000000000)"
    by simp_all
  moreover have "protocolFeeBalance ex_s0 = 0" "this_balance ex_s0 = 0"
    "msg_value (alice 2000000000000) = 2000000000000"
    by (simp_all add: ex_defs)
  ultimately show ?thesis using ex_create by (simp add: MEMETOKEN_CREATION_FEE_def)
qed

section \<open>The inverse solver\<close>










section \<open>The truncated terms against the ideal ones\<close>

lemma DECIMALS_neq0 [simp]: "DECIMALS \<noteq> 0"
  by (simp add: DECIMALS_def)

lemma nat_div_lower:
  assumes "0 < d"
  shows "real n / real d - 1 \<le> real (n div d)"
proof -
  have "real n / real d = real (n div d) + real (n mod d) / real d"
    by (rule of_nat_of_nat_div_aux)
  moreover have "real (n mod d) / real d \<le> 1"
    using assms by (simp add: less_imp_le)
  ultimately show ?thesis by linarith
qed

lemma ideal_term_0 [simp]: "ideal_term y 0 = real DECIMALS"
  by (simp add: ideal_term_def)

lemma ideal_term_Suc:
  "ideal_term y (Suc i) = ideal_term y i * y / (real (Suc i) * real DECIMALS)"
proof -
  have "ideal_term y (Suc i) =
          real DECIMALS * ((y / real DECIMALS) ^ i * (y / real DECIMALS)) / (real (Suc i) * fact i)"
    by (simp add: ideal_term_def mult.commute)
  also have "\<dots> = (real DECIMALS * (y / real DECIMALS) ^ i / fact i) * y / (real (Suc i) * real DECIMALS)"
    by simp
  finally show ?thesis by (simp only: ideal_term_def)
qed

lemma ideal_term_nonneg: "0 \<le> y \<Longrightarrow> 0 \<le> ideal_term y i"
  by (simp add: ideal_term_def)

text \<open>The truncated term never exceeds the ideal one.\<close>

lemma term_le_ideal: "real (maclaurin_term x i) \<le> ideal_term (real x) i"
proof (induction i)
  case 0
  then show ?case by simp
next
  case (Suc i)
  define q where "q = real x / (real (Suc i) * real DECIMALS)"
  have q0: "0 \<le> q" by (simp add: q_def)
  have e: "real (maclaurin_term x i * x) / real (Suc i * DECIMALS) = real (maclaurin_term x i) * q"
    by (simp only: q_def of_nat_mult times_divide_eq_right)
  have "real (maclaurin_term x (Suc i)) \<le> real (maclaurin_term x i * x) / real (Suc i * DECIMALS)"
    unfolding maclaurin_term.simps by (rule of_nat_div_le_of_nat)
  also have "\<dots> = real (maclaurin_term x i) * q" by (rule e)
  also have "\<dots> \<le> ideal_term (real x) i * q"
    by (rule mult_right_mono [OF Suc q0])
  also have "\<dots> = ideal_term (real x) (Suc i)"
    by (simp only: ideal_term_Suc q_def times_divide_eq_right)
  finally show ?case .
qed

text \<open>On the curve's range of exponents it falls short of it by less than \<open>2^i\<close>.\<close>

lemma term_ge_ideal:
  assumes "x \<le> 4 * DECIMALS"
  shows "ideal_term (real x) i - (2 ^ i - 1) \<le> real (maclaurin_term x i)"
proof (induction i)
  case 0
  then show ?case by simp
next
  case (Suc i)
  define q where "q = real x / (real (Suc i) * real DECIMALS)"
  have q0: "0 \<le> q" by (simp add: q_def)
  have e: "real (maclaurin_term x i * x) / real (Suc i * DECIMALS) = real (maclaurin_term x i) * q"
    by (simp only: q_def of_nat_mult times_divide_eq_right)
  have s: "ideal_term (real x) (Suc i) = ideal_term (real x) i * q"
    by (simp only: ideal_term_Suc q_def times_divide_eq_right)
  have "real x \<le> 4 * real DECIMALS" using assms by (metis of_nat_le_iff of_nat_mult of_nat_numeral)
  then have "real x / real DECIMALS \<le> 4" by (simp add: pos_divide_le_eq)
  then have "real x / real DECIMALS / real (Suc i) \<le> 4 / real (Suc i)"
    by (rule divide_right_mono) simp
  then have q4: "q \<le> 4 / real (Suc i)"
    by (simp add: q_def mult.commute)
  have loss: "(2 ^ i - 1) * q + 1 \<le> (2 ^ Suc i - 1 :: real)"
  proof (cases i)
    case 0
    then show ?thesis by simp
  next
    case (Suc j)
    then have "4 / real (Suc i) \<le> 2" by (simp add: field_simps)
    with q4 have "q \<le> 2" by linarith
    moreover have "(0::real) \<le> 2 ^ i - 1" by simp
    ultimately have "(2 ^ i - 1) * q \<le> (2 ^ i - 1) * 2" by (rule mult_left_mono)
    then show ?thesis by simp
  qed
  have "ideal_term (real x) (Suc i) - (2 ^ Suc i - 1) \<le> ideal_term (real x) (Suc i) - ((2 ^ i - 1) * q + 1)"
    using loss by simp
  also have "\<dots> = (ideal_term (real x) i - (2 ^ i - 1)) * q - 1"
    by (simp only: s) (simp add: algebra_simps)
  also have "\<dots> \<le> real (maclaurin_term x i) * q - 1"
    using mult_right_mono [OF Suc q0] by simp
  also have "\<dots> = real (maclaurin_term x i * x) / real (Suc i * DECIMALS) - 1"
    by (simp only: e)
  also have "\<dots> \<le> real ((maclaurin_term x i * x) div (Suc i * DECIMALS))"
    by (rule nat_div_lower) simp
  finally show ?case by simp
qed

text \<open>Powers are midpoint convex on the non-negative reals.\<close>

lemma power_midpoint_convex:
  fixes x h :: real
  assumes "0 \<le> x" and "0 \<le> h"
  shows "2 * (x + h) ^ i \<le> (x + 2 * h) ^ i + x ^ i"
proof (induction i)
  case 0
  then show ?case by simp
next
  case (Suc i)
  have mono: "x ^ i \<le> (x + 2 * h) ^ i"
    using assms by (intro power_mono) simp_all
  have nn: "0 \<le> ((x + 2 * h) ^ i - x ^ i) * h"
    using mono assms by simp
  have "2 * (x + h) ^ Suc i = 2 * (x + h) ^ i * (x + h)" by simp
  also have "\<dots> \<le> ((x + 2 * h) ^ i + x ^ i) * (x + h)"
    using Suc assms by (intro mult_right_mono) simp_all
  also have "\<dots> \<le> ((x + 2 * h) ^ i + x ^ i) * (x + h) + ((x + 2 * h) ^ i - x ^ i) * h"
    using nn by simp
  also have "\<dots> = (x + 2 * h) ^ Suc i + x ^ Suc i"
    by (simp add: algebra_simps)
  finally show ?case .
qed

lemma ideal_term_convex:
  assumes "0 \<le> x" and "0 \<le> h"
  shows "2 * ideal_term (x + h) i \<le> ideal_term (x + 2 * h) i + ideal_term x i"
proof -
  let ?c = "real DECIMALS / (real DECIMALS ^ i * fact i)"
  have c: "0 \<le> ?c" by simp
  have e: "ideal_term y i = ?c * y ^ i" for y
    by (simp add: ideal_term_def power_divide)
  have "?c * (2 * (x + h) ^ i) \<le> ?c * ((x + 2 * h) ^ i + x ^ i)"
    using power_midpoint_convex [OF assms] c by (rule mult_left_mono)
  then show ?thesis by (simp only: e) (simp add: algebra_simps)
qed

lemma ideal_term_2_gap:
  "ideal_term (x + 2 * h) 2 + ideal_term x 2 - 2 * ideal_term (x + h) 2 = h ^ 2 / real DECIMALS"
  by (simp add: ideal_term_def power2_eq_square field_simps)

lemma term_second_difference:
  assumes "x + 2 * h \<le> 4 * DECIMALS"
  shows "2 * real (maclaurin_term (x + h) i) +
           (ideal_term (real x + 2 * real h) i + ideal_term (real x) i - 2 * ideal_term (real x + real h) i)
           - 2 ^ (i + 1)
         \<le> real (maclaurin_term (x + 2 * h) i) + real (maclaurin_term x i)"
proof -
  have x: "x \<le> 4 * DECIMALS" using assms by simp
  have 1: "ideal_term (real x + 2 * real h) i - (2 ^ i - 1) \<le> real (maclaurin_term (x + 2 * h) i)"
    using term_ge_ideal [OF assms, of i] by simp
  have 2: "ideal_term (real x) i - (2 ^ i - 1) \<le> real (maclaurin_term x i)"
    by (rule term_ge_ideal [OF x])
  have 3: "real (maclaurin_term (x + h) i) \<le> ideal_term (real x + real h) i"
    using term_le_ideal [of "x + h" i] by simp
  have "(2::real) ^ (i + 1) = 2 * 2 ^ i" by simp
  with 1 2 3 show ?thesis by linarith
qed

lemma term_second_difference_convex:
  assumes "x + 2 * h \<le> 4 * DECIMALS"
  shows "2 * real (maclaurin_term (x + h) i) - 2 ^ (i + 1)
         \<le> real (maclaurin_term (x + 2 * h) i) + real (maclaurin_term x i)"
  using term_second_difference [OF assms, of i]
    ideal_term_convex [of "real x" "real h" i]
  by simp

lemma sum_second_difference:
  assumes "x + 2 * h \<le> 4 * DECIMALS"
  shows "2 * real (maclaurin_sum (x + h) (n + 2)) + (real h) ^ 2 / real DECIMALS - 2 ^ (n + 4)
         \<le> real (maclaurin_sum (x + 2 * h) (n + 2)) + real (maclaurin_sum x (n + 2))"
proof (induction n)
  case 0
  define H where "H = (real h) ^ 2 / real DECIMALS"
  define A B C where "A = real (maclaurin_term (x + h) 2)"
    and "B = real (maclaurin_term (x + 2 * h) 2)" and "C = real (maclaurin_term x 2)"
  have t2: "2 * A + H - 8 \<le> B + C"
    using term_second_difference [OF assms, of 2] ideal_term_2_gap [of "real x" "real h"]
    by (simp add: H_def A_def B_def C_def del: maclaurin_term.simps)
  have s2: "maclaurin_sum y 2 = DECIMALS + y + maclaurin_term y 2" for y
    by (simp add: numeral_2_eq_2 del: maclaurin_term.simps)
  have r: "real (maclaurin_sum y (0 + 2)) = real DECIMALS + real y + real (maclaurin_term y 2)" for y
    by (simp only: add_0 s2 of_nat_add)
  have p: "(2::real) ^ (0 + 4) = 16" by simp
  have a: "real (x + h) = real x + real h" "real (x + 2 * h) = real x + 2 * real h" by simp_all
  have "2 * (real DECIMALS + (real x + real h) + A) + H - 16
          \<le> real DECIMALS + (real x + 2 * real h) + B + (real DECIMALS + real x + C)"
    using t2 by (simp add: algebra_simps)
  then show ?case unfolding r p a H_def A_def B_def C_def .
next
  case (Suc n)
  have e: "Suc n + 2 = Suc (n + 2)" "Suc n + 4 = Suc (n + 4)" "Suc (n + 2) + 1 = n + 4" by simp_all
  define P :: real where "P = 2 ^ (n + 4)"
  define H where "H = (real h) ^ 2 / real DECIMALS"
  define S1 S2 S3 where "S1 = real (maclaurin_sum (x + h) (n + 2))"
    and "S2 = real (maclaurin_sum (x + 2 * h) (n + 2))" and "S3 = real (maclaurin_sum x (n + 2))"
  define T1 T2 T3 where "T1 = real (maclaurin_term (x + h) (Suc (n + 2)))"
    and "T2 = real (maclaurin_term (x + 2 * h) (Suc (n + 2)))"
    and "T3 = real (maclaurin_term x (Suc (n + 2)))"
  have t: "2 * T1 - P \<le> T2 + T3"
    using term_second_difference_convex [OF assms, of "Suc (n + 2)"]
    by (simp only: e P_def T1_def T2_def T3_def)
  have ih: "2 * S1 + H - P \<le> S2 + S3"
    using Suc by (simp only: P_def H_def S1_def S2_def S3_def)
  have "2 * (S1 + T1) + H - 2 * P \<le> (S2 + T2) + (S3 + T3)"
    using t ih by argo
  then show ?case
    by (simp only: e maclaurin_sum_Suc of_nat_add power_Suc P_def H_def S1_def S2_def S3_def
        T1_def T2_def T3_def)
qed

lemma exp_spec_convex_step:
  assumes "x + 2 * K \<le> 4 * DECIMALS"
  shows "2 * exp_spec (x + K) < exp_spec (x + 2 * K) + exp_spec x"
proof -
  have "2 * real (maclaurin_sum (x + K) (18 + 2)) + (real K) ^ 2 / real DECIMALS - 2 ^ (18 + 4)
         \<le> real (maclaurin_sum (x + 2 * K) (18 + 2)) + real (maclaurin_sum x (18 + 2))"
    by (rule sum_second_difference [OF assms])
  moreover have "(2::real) ^ (18 + 4) < (real K) ^ 2 / real DECIMALS"
    by (simp add: K_def DECIMALS_def)
  ultimately have "2 * real (maclaurin_sum (x + K) 20) < real (maclaurin_sum (x + 2 * K) 20) + real (maclaurin_sum x 20)"
    by simp
  then have "real (2 * exp_spec (x + K)) < real (exp_spec (x + 2 * K) + exp_spec x)"
    by (simp add: exp_spec_eq_sum20)
  then show ?thesis by (simp only: of_nat_less_iff)
qed

section \<open>Convexity on whole tokens\<close>

lemma exponent_of_tokens: "exponent_of (j * DECIMALS) = K * j"
  by (simp add: exponent_of_def)

lemma K_range: "j \<le> 800000 \<Longrightarrow> K * j \<le> 4 * DECIMALS"
proof -
  assume "j \<le> 800000"
  then have "K * j \<le> K * 800000" by (rule mult_le_mono2)
  also have "\<dots> \<le> 4 * DECIMALS" by (simp add: K_def DECIMALS_def)
  finally show ?thesis .
qed

lemma curve_value_convex:
  assumes "j + 2 \<le> 800000"
  shows "2 * curve_value (Suc j) < curve_value (Suc (Suc j)) + curve_value j"
proof -
  have a: "K * Suc j = K * j + K" "K * Suc (Suc j) = K * j + 2 * K" by simp_all
  have "K * j + 2 * K = K * (j + 2)" by simp
  then have "K * j + 2 * K \<le> 4 * DECIMALS" using K_range [OF assms] by simp
  from exp_spec_convex_step [OF this] show ?thesis
    unfolding curve_value_def a .
qed

lemma curve_value_mono: "i \<le> j \<Longrightarrow> curve_value i \<le> curve_value j"
  by (simp add: curve_value_def exp_spec_mono)

lemma curve_step_grows:
  "j + Suc k + 1 \<le> 800000 \<Longrightarrow>
   curve_value (j + Suc k) + curve_value (Suc j) < curve_value (Suc (j + Suc k)) + curve_value j"
proof (induction k)
  case 0
  then have "j + 2 \<le> 800000" by simp
  from curve_value_convex [OF this] show ?case
    by (simp only: add_Suc_right add_0_right)
next
  case (Suc k)
  from Suc.prems have "j + Suc k + 1 \<le> 800000" "(j + Suc k) + 2 \<le> 800000" by simp_all
  with Suc.IH curve_value_convex [of "j + Suc k"]
  have "curve_value (j + Suc k) + curve_value (Suc j) < curve_value (Suc (j + Suc k)) + curve_value j"
    "2 * curve_value (Suc (j + Suc k)) < curve_value (Suc (Suc (j + Suc k))) + curve_value (j + Suc k)"
    by blast+
  then have "curve_value (Suc (j + Suc k)) + curve_value (Suc j)
               < curve_value (Suc (Suc (j + Suc k))) + curve_value j"
    by linarith
  then show ?case by (simp only: add_Suc_right)
qed

lemma curve_window_grows_aux:
  "Suc (m + d) + Suc k \<le> 800000 \<Longrightarrow>
   curve_value (m + Suc k) + curve_value (Suc (m + d))
     < curve_value (Suc (m + d) + Suc k) + curve_value m"
proof (induction d)
  case 0
  then have "m + Suc k + 1 \<le> 800000" by simp
  from curve_step_grows [OF this] show ?case
    by (simp only: add_Suc add_Suc_right add_0_right)
next
  case (Suc d)
  from Suc.prems have 1: "Suc (m + d) + Suc k \<le> 800000"
    and 2: "Suc (m + d) + Suc k + 1 \<le> 800000" by simp_all
  from Suc.IH [OF 1] curve_step_grows [OF 2]
  have "curve_value (m + Suc k) + curve_value (Suc (Suc (m + d)))
          < curve_value (Suc (Suc (m + d) + Suc k)) + curve_value m"
    by linarith
  then show ?case by (simp only: add_Suc add_Suc_right)
qed

lemma curve_window_grows:
  assumes "1 \<le> n" and "m < m'" and "m' + n \<le> 800000"
  shows "curve_value (m + n) - curve_value m < curve_value (m' + n) - curve_value m'"
proof -
  from assms(2) obtain d where m': "m' = Suc (m + d)" by (auto simp: less_iff_Suc_add)
  from assms(1) obtain k where n: "n = Suc k" by (cases n) auto
  have "curve_value (m + n) + curve_value m' < curve_value (m' + n) + curve_value m"
    using curve_window_grows_aux [of m d k] assms(3) unfolding m' n by blast
  moreover have "curve_value m \<le> curve_value (m + n)" "curve_value m' \<le> curve_value (m' + n)"
    by (simp_all add: curve_value_mono)
  ultimately show ?thesis by linarith
qed

lemma cost_on_tokens:
  assumes "m + n \<le> 800000"
  shows "calculateCost (m * DECIMALS) (n * DECIMALS) =
           Inr ((INITIAL_PRICE * (curve_value (m + n) - curve_value m)) div K)"
proof -
  have "m * DECIMALS + n * DECIMALS = (m + n) * DECIMALS" by (simp add: algebra_simps)
  moreover have "(m + n) * DECIMALS \<le> MAX_CURVE" using assms by (simp add: MAX_CURVE_eq)
  ultimately have "m * DECIMALS + n * DECIMALS \<le> MAX_CURVE" by simp
  from cost_total_in_range [OF this] obtain v where
    v: "calculateCost (m * DECIMALS) (n * DECIMALS) = Inr v" by blast
  then have "v = (INITIAL_PRICE * (exp_spec (exponent_of (m * DECIMALS + n * DECIMALS)) -
                    exp_spec (exponent_of (m * DECIMALS)))) div K"
    by (simp add: calculateCost_Inr_iff)
  also have "m * DECIMALS + n * DECIMALS = (m + n) * DECIMALS" by (simp add: algebra_simps)
  finally have "v = (INITIAL_PRICE * (curve_value (m + n) - curve_value m)) div K"
    by (simp only: exponent_of_tokens curve_value_def)
  with v show ?thesis by simp
qed

lemma cost_strict_in_supply:
  assumes "1 \<le> n" and "m < m'" and "m' + n \<le> 800000"
  shows "\<exists>v v'. calculateCost (m * DECIMALS) (n * DECIMALS) = Inr v \<and>
                calculateCost (m' * DECIMALS) (n * DECIMALS) = Inr v' \<and> v < v'"
proof -
  have mn: "m + n \<le> 800000" using assms by simp
  show ?thesis
    using cost_on_tokens [OF mn] cost_on_tokens [OF assms(3)]
      price_step [OF curve_window_grows [OF assms]]
    by blast
qed

section \<open>Claims on monotonicity and on the solver\<close>

text \<open>
  C6, amended. For a fixed supply, \<open>calculateCost\<close> is non-decreasing in \<open>delta\<close> (the
  smaller call returns whenever the larger one does), and strictly increasing between two
  deltas that differ by at least 204046 raw units, hence between different whole-token
  amounts. For whole-token supplies \<open>m < m'\<close> and a whole-token delta \<open>n \<ge> 1\<close> with
  \<open>m' + n\<close> within the curve cap of 800000 tokens, it is strictly increasing in the supply.
\<close>

theorem cost_monotone:
  "(a \<le> a' \<and> calculateCost c a' = Inr v' \<longrightarrow> (\<exists>v. calculateCost c a = Inr v \<and> v \<le> v')) \<and>
   (a + 204046 \<le> a' \<and> calculateCost c a = Inr v \<and> calculateCost c a' = Inr v' \<longrightarrow> v < v') \<and>
   (1 \<le> n \<and> m < m' \<and> m' + n \<le> 800000 \<longrightarrow>
      (\<exists>w w'. calculateCost (m * DECIMALS) (n * DECIMALS) = Inr w \<and>
               calculateCost (m' * DECIMALS) (n * DECIMALS) = Inr w' \<and> w < w'))"
proof -
  have 1: "\<exists>v. calculateCost c a = Inr v \<and> v \<le> v'"
    if "a \<le> a' \<and> calculateCost c a' = Inr v'"
    using that cost_mono_delta [of a a' c v'] by blast
  have 2: "v < v'"
    if h: "a + 204046 \<le> a' \<and> calculateCost c a = Inr v \<and> calculateCost c a' = Inr v'"
  proof -
    from h have "a + 204046 \<le> a'" by simp
    then have "204046 \<le> a' - a" by linarith
    then have "DECIMALS \<le> K * (a' - a)" by (simp add: cost_threshold)
    from exponent_of_step [OF this, of "c + a"] h
    have "exponent_of (c + a) < exponent_of (c + a')" by (simp add: add.assoc)
    with h show ?thesis using cost_strict_exponent [of c a v a' v'] by blast
  qed
  have 3: "\<exists>w w'. calculateCost (m * DECIMALS) (n * DECIMALS) = Inr w \<and>
               calculateCost (m' * DECIMALS) (n * DECIMALS) = Inr w' \<and> w < w'"
    if "1 \<le> n \<and> m < m' \<and> m' + n \<le> 800000"
    using that cost_strict_in_supply [of n m m'] by blast
  show ?thesis using 1 2 3 by blast
qed

lemma ex_cost_two: "calculateCost 0 (2 * DECIMALS) = Inr 22801623221491478"
  by (simp add: eval_defs)

lemma ex_cost_second: "calculateCost (1 * DECIMALS) (1 * DECIMALS) = Inr 11400839547653839"
  by (simp add: eval_defs)

theorem cost_monotone_witness:
  "DECIMALS + 204046 \<le> 2 * DECIMALS \<and>
   calculateCost 0 DECIMALS = Inr 11400783673837639 \<and>
   calculateCost 0 (2 * DECIMALS) = Inr 22801623221491478 \<and>
   (11400783673837639::nat) < 22801623221491478 \<and>
   (0::nat) < 1 \<and> (1::nat) + 1 \<le> 800000 \<and>
   calculateCost (1 * DECIMALS) (1 * DECIMALS) = Inr 11400839547653839 \<and>
   (11400783673837639::nat) < 11400839547653839"
proof -
  have "DECIMALS + 204046 \<le> 2 * DECIMALS" by (simp add: DECIMALS_def)
  with cost_monotone [of DECIMALS "2 * DECIMALS" 0 22801623221491478 11400783673837639 1 0 1]
    cost_first_token ex_cost_two ex_cost_second
  show ?thesis by simp
qed

text \<open>
  C6, as stated, fails on raw units: at supply 0 the deltas 1 and 2 both cost 0, and the
  delta 1 costs 2326 at supply 204045 but 0 at supply 204046.
\<close>

theorem cost_not_strict_counterexample:
  "calculateCost 0 1 = Inr 0 \<and> calculateCost 0 2 = Inr 0 \<and>
   calculateCost 204045 1 = Inr 2326 \<and> calculateCost 204046 1 = Inr 0"
  by (simp add: eval_defs)





end
